theory Spec2Isabelle
  imports Complex_Main "HOL-Library.Log_Nat"
begin

section \<open>Python values and builtins used by the application\<close>

text \<open>
  The application is a single Python module, \<^verbatim>\<open>app.py\<close>. Its functions are embedded
  as HOL functions. Python's \<^verbatim>\<open>int\<close> is \<^typ>\<open>int\<close> and \<^verbatim>\<open>str\<close> is \<^typ>\<open>string\<close>
  (a list of bytes, so the text is ASCII). An exception is a value of type \<open>exn\<close> on
  the left of a sum.
\<close>

datatype exn =
  ValueError | ZeroDivisionError | KeyError | AttributeError | TypeError
  | SyntaxError | FileNotFoundError | FfmpegError

definition bind_exn :: "exn + 'a \<Rightarrow> ('a \<Rightarrow> exn + 'b) \<Rightarrow> exn + 'b" where
  "bind_exn m f = (case m of Inl e \<Rightarrow> Inl e | Inr x \<Rightarrow> f x)"

subsection \<open>Floating point numbers\<close>

text \<open>
  A Python \<^verbatim>\<open>float\<close> is a double: a real number with 53 significant bits. Every
  operation on floats is the exact operation followed by \<open>fl\<close>, the rounding to the
  nearest such number, a tie going to the even mantissa. The range of the exponent is
  not modelled: overflow to infinity and the subnormal numbers are left out, and
  \<open>inf\<close> and \<open>nan\<close> are not values.
\<close>

definition round_half_even :: "real \<Rightarrow> int" where
  "round_half_even q =
     (let f = \<lfloor>q\<rfloor>; d = q - of_int f
      in if d < 1 / 2 then f else if 1 / 2 < d then f + 1 else if even f then f else f + 1)"

text \<open>The exponent of a positive number \<open>x\<close>: the \<open>n\<close> with \<open>2 powi n \<le> x < 2 powi (n + 1)\<close>.\<close>

definition ilog2 :: "real \<Rightarrow> int" where
  "ilog2 x = (if 1 \<le> x then bitlen \<lfloor>x\<rfloor> - 1 else - bitlen (\<lceil>1 / x\<rceil> - 1))"

definition fl :: "real \<Rightarrow> real" where
  "fl x =
     (if x = 0 then 0
      else (let e = ilog2 \<bar>x\<bar> - 52
            in of_int (round_half_even (x / 2 powi e)) * 2 powi e))"

text \<open>
  \<^verbatim>\<open>sum(xs)\<close> on a list of floats: the additions from the left, starting from 0, each
  one rounded (the interpreter up to version 3.11; later versions compensate the
  rounding error of the additions).
\<close>

definition py_sum :: "real list \<Rightarrow> real" where
  "py_sum xs = foldl (\<lambda>a x. fl (a + x)) 0 xs"

text \<open>
  A number as \<^verbatim>\<open>eval\<close> returns it: an \<^verbatim>\<open>int\<close> or a \<^verbatim>\<open>float\<close>. The true division
  of an \<^verbatim>\<open>int\<close> by such a number is correctly rounded when both are \<^verbatim>\<open>int\<close>; otherwise
  the dividend is converted to a float first.
\<close>

datatype pynum = PyInt int | PyFloat real

subsection \<open>Strings\<close>

definition is_digit :: "char \<Rightarrow> bool" where
  "is_digit c = (c \<in> set ''0123456789'')"

text \<open>The ASCII characters that \<^verbatim>\<open>str.strip()\<close> and \<^verbatim>\<open>int()\<close> treat as white space.\<close>

definition is_space :: "char \<Rightarrow> bool" where
  "is_space c = (c \<in> set [CHR '' '', CHR 0x09, CHR 0x0A, CHR 0x0B, CHR 0x0C, CHR 0x0D,
                            CHR 0x1C, CHR 0x1D, CHR 0x1E, CHR 0x1F])"

definition digit_val :: "char \<Rightarrow> int" where
  "digit_val c = int (of_char c) - 48"

text \<open>The value of a string of decimal digits, most significant digit first.\<close>

definition dec_val :: "string \<Rightarrow> int" where
  "dec_val ds = foldl (\<lambda>n c. 10 * n + digit_val c) 0 ds"

definition py_strip :: "string \<Rightarrow> string" where
  "py_strip s = rev (dropWhile is_space (rev (dropWhile is_space s)))"

text \<open>
  \<^verbatim>\<open>s.replace(old, new)\<close> for a pattern \<open>old\<close> of one character: every occurrence is
  replaced.
\<close>

definition py_replace :: "char \<Rightarrow> string \<Rightarrow> string \<Rightarrow> string" where
  "py_replace old new s = concat (map (\<lambda>c. if c = old then new else [c]) s)"

text \<open>
  \<^verbatim>\<open>s.split(sep)\<close> for a separator of one character: the pieces between the occurrences,
  empty pieces included, so the result is never empty.
\<close>

fun py_split :: "char \<Rightarrow> string \<Rightarrow> string list" where
  "py_split sep [] = [[]]"
| "py_split sep (c # cs) =
     (if c = sep then [] # py_split sep cs
      else (case py_split sep cs of p # ps \<Rightarrow> (c # p) # ps | [] \<Rightarrow> [[c]]))"

text \<open>
  Splits an optional leading sign off a numeric literal: the flag tells whether the sign
  is a minus.
\<close>

definition split_sign :: "string \<Rightarrow> bool \<times> string" where
  "split_sign s =
     (case s of
        [] \<Rightarrow> (False, [])
      | c # cs \<Rightarrow>
          if c = CHR ''-'' then (True, cs)
          else if c = CHR ''+'' then (False, cs)
          else (False, s))"

text \<open>
  \<^verbatim>\<open>int(s)\<close> on a string: surrounding white space is dropped, one sign is allowed, and
  the digits may be grouped by single underscores. Anything else raises \<^verbatim>\<open>ValueError\<close>.
\<close>

definition py_int :: "string \<Rightarrow> exn + int" where
  "py_int s =
     (let (neg, body) = split_sign (py_strip s);
          groups = py_split CHR ''_'' body
      in if list_all (\<lambda>g. g \<noteq> [] \<and> list_all is_digit g) groups
         then Inr ((if neg then - 1 else 1) * dec_val (concat groups))
         else Inl ValueError)"

text \<open>
  \<^verbatim>\<open>float(s)\<close> on a string, for plain decimal literals: an optional sign, digits, and
  an optional fraction after a point (the form in which the probe prints durations and
  sizes); the result is the double nearest to the decimal value. Exponents, \<open>inf\<close> and
  \<open>nan\<close> are outside this model and answer \<^verbatim>\<open>ValueError\<close> here.
\<close>

definition py_float :: "string \<Rightarrow> exn + real" where
  "py_float s =
     (let (neg, body) = split_sign (py_strip s);
          sgn = (if neg then - 1 else 1 :: real)
      in case py_split CHR ''.'' body of
           [ip] \<Rightarrow>
             if ip \<noteq> [] \<and> list_all is_digit ip then Inr (fl (sgn * real_of_int (dec_val ip)))
             else Inl ValueError
         | [ip, fp] \<Rightarrow>
             if (ip \<noteq> [] \<or> fp \<noteq> []) \<and> list_all is_digit ip \<and> list_all is_digit fp
             then Inr (fl (sgn * (real_of_int (dec_val ip)
                                    + real_of_int (dec_val fp) / 10 ^ length fp)))
             else Inl ValueError
         | _ \<Rightarrow> Inl ValueError)"

text \<open>
  A decimal integer literal of Python source text: digits, with no leading zero unless
  all digits are zero.
\<close>

definition int_literal :: "string \<Rightarrow> bool" where
  "int_literal s = (s \<noteq> [] \<and> list_all is_digit s \<and> (hd s \<noteq> CHR ''0'' \<or> list_all (\<lambda>c. c = CHR ''0'') s))"

text \<open>
  \<^verbatim>\<open>eval(s)\<close>, for the expressions a frame rate is written in: an integer literal,
  which is an \<^verbatim>\<open>int\<close>, or the quotient of two integer literals, which is a float (true
  division, correctly rounded, which raises on a zero divisor). On every other string the
  model answers \<^verbatim>\<open>SyntaxError\<close>; the only caller catches all exceptions alike.
\<close>

definition py_eval :: "string \<Rightarrow> exn + pynum" where
  "py_eval s =
     (case py_split CHR ''/'' s of
        [a] \<Rightarrow> if int_literal a then Inr (PyInt (dec_val a)) else Inl SyntaxError
      | [a, b] \<Rightarrow>
          if int_literal a \<and> int_literal b
          then (if dec_val b = 0 then Inl ZeroDivisionError
                else Inr (PyFloat (fl (real_of_int (dec_val a) / real_of_int (dec_val b)))))
          else Inl SyntaxError
      | _ \<Rightarrow> Inl SyntaxError)"

text \<open>\<^verbatim>\<open>a / b\<close> for an \<^verbatim>\<open>int\<close> \<open>a\<close> and a number \<open>b\<close>.\<close>

definition int_truediv :: "int \<Rightarrow> pynum \<Rightarrow> exn + real" where
  "int_truediv a b =
     (case b of
        PyInt n \<Rightarrow>
          if n = 0 then Inl ZeroDivisionError else Inr (fl (real_of_int a / real_of_int n))
      | PyFloat y \<Rightarrow>
          if y = 0 then Inl ZeroDivisionError else Inr (fl (fl (real_of_int a) / y)))"

subsection \<open>The page, the files and the encoder\<close>

text \<open>
  The application acts on three things: the files of the machine, the external encoder
  and the page it renders. A file is known by its content and by the size
  \<^verbatim>\<open>os.path.getsize\<close> reports. The page is the list of the elements written so far;
  a metric carries the number it shows, before the format string rounds it for display.
  An effect that has happened stays: a function that can raise after it has written to
  the page or to the files returns the exception together with the state it left.
\<close>

record blob =
  payload :: string
  nbytes :: nat

text \<open>
  The command \<^verbatim>\<open>compress_video\<close> hands to \<^verbatim>\<open>ffmpeg.run\<close>: the input, the optional
  \<open>scale\<close> and \<open>fps\<close> filters, whether the audio stream is carried, the video bitrate,
  the codec, the output and the overwrite flag.
\<close>

record encode_cmd =
  cmd_program :: string
  cmd_input :: string
  cmd_scale :: "(int \<times> int) option"
  cmd_fps :: "int option"
  cmd_audio :: bool
  cmd_video_bitrate :: string
  cmd_codec :: string
  cmd_output :: string
  cmd_overwrite :: bool

datatype ui_event =
  Warning string
  | Error string exn
  | Subheader string
  | Metric string real
  | Write string
  | Video blob
  | DownloadButton string blob

record world =
  files :: "string \<rightharpoonup> blob"
  encodes :: "encode_cmd list"
  ui :: "ui_event list"

definition st_show :: "ui_event \<Rightarrow> world \<Rightarrow> world" where
  "st_show ev w = w\<lparr>ui := ui w @ [ev]\<rparr>"

section \<open>File size and the probe\<close>

text \<open>\<^verbatim>\<open>get_file_size\<close> (lines 13 to 16): the size of a file in MB.\<close>

definition get_file_size :: "(string \<rightharpoonup> blob) \<Rightarrow> string \<Rightarrow> exn + real" where
  "get_file_size fs file_path =
     (case fs file_path of
        None \<Rightarrow> Inl FileNotFoundError
      | Some f \<Rightarrow> (let size_bytes = nbytes f in Inr (fl (real size_bytes / (1024 * 1024)))))"

text \<open>
  What \<^verbatim>\<open>ffmpeg.probe\<close> returns is the parsed JSON of the inspection tool: a dictionary
  with the list of streams under \<open>streams\<close> and the container's dictionary under
  \<open>format\<close>. Each stream and the container are dictionaries from keys to scalars, which
  are numbers or strings.
\<close>

datatype json = JInt int | JStr string

type_synonym dict = "string \<rightharpoonup> json"

record probe =
  probe_streams :: "dict list option"
  probe_format :: "dict option"

text \<open>\<^verbatim>\<open>d.get(key, default)\<close>.\<close>

definition dict_get :: "dict \<Rightarrow> string \<Rightarrow> json \<Rightarrow> json" where
  "dict_get d key dflt = (case d key of None \<Rightarrow> dflt | Some v \<Rightarrow> v)"

definition int_of_json :: "json \<Rightarrow> exn + int" where
  "int_of_json j = (case j of JInt n \<Rightarrow> Inr n | JStr s \<Rightarrow> py_int s)"

definition float_of_json :: "json \<Rightarrow> exn + real" where
  "float_of_json j = (case j of JInt n \<Rightarrow> Inr (fl (real_of_int n)) | JStr s \<Rightarrow> py_float s)"

text \<open>
  \<^verbatim>\<open>next((stream for stream in probe['streams'] if stream['codec_type'] == kind), None)\<close>:
  the first stream of the kind. A stream without the key met on the way raises.
\<close>

fun first_stream :: "string \<Rightarrow> dict list \<Rightarrow> exn + dict option" where
  "first_stream kind [] = Inr None"
| "first_stream kind (stream # rest) =
     (case stream ''codec_type'' of
        None \<Rightarrow> Inl KeyError
      | Some t \<Rightarrow> if t = JStr kind then Inr (Some stream) else first_stream kind rest)"

text \<open>
  The dictionary \<^verbatim>\<open>get_video_info\<close> returns. Its keys are those of the dictionary
  literal at lines 25 to 32, and \<open>r_frame_rate\<close>, the key \<^verbatim>\<open>estimate_size\<close> reads with
  \<^verbatim>\<open>.get\<close>: that field is \<open>None\<close> when the dictionary has no such key. The fields are
  prefixed, since the plain names are local variables of the functions below.
\<close>

record video_info =
  vi_width :: int
  vi_height :: int
  vi_duration :: real
  vi_bitrate :: int
  vi_size :: real
  vi_has_audio :: bool
  vi_r_frame_rate :: "string option"

text \<open>
  The body of the \<^verbatim>\<open>try\<close> of \<^verbatim>\<open>get_video_info\<close> (lines 22 to 32), on the result of
  the probe. A missing video stream makes \<^verbatim>\<open>video_info.get\<close> fail on \<open>None\<close>.
\<close>

definition video_info_of :: "probe \<Rightarrow> exn + video_info" where
  "video_info_of p =
     (case probe_streams p of
        None \<Rightarrow> Inl KeyError
      | Some streams \<Rightarrow>
          bind_exn (first_stream ''video'' streams) (\<lambda>video_info.
          bind_exn (first_stream ''audio'' streams) (\<lambda>audio_info.
          case video_info of
            None \<Rightarrow> Inl AttributeError
          | Some v \<Rightarrow>
              let fmt = (case probe_format p of None \<Rightarrow> Map.empty | Some f \<Rightarrow> f) in
              bind_exn (int_of_json (dict_get v ''width'' (JInt 0))) (\<lambda>width.
              bind_exn (int_of_json (dict_get v ''height'' (JInt 0))) (\<lambda>height.
              bind_exn (float_of_json (dict_get fmt ''duration'' (JInt 0))) (\<lambda>duration.
              bind_exn (int_of_json (dict_get fmt ''bit_rate'' (JInt 0))) (\<lambda>bitrate.
              bind_exn (float_of_json (dict_get fmt ''size'' (JInt 0))) (\<lambda>size_f.
              Inr \<lparr>vi_width = width, vi_height = height, vi_duration = duration,
                   vi_bitrate = bitrate, vi_size = size_f,
                   vi_has_audio = (audio_info \<noteq> None),
                   vi_r_frame_rate = None\<rparr>))))))))"

text \<open>
  \<^verbatim>\<open>get_video_info\<close> (lines 18 to 35). The inspection tool is a parameter: it answers
  a path with the parsed output, or raises. Every exception is caught, shown on the page
  and turned into \<open>None\<close>.
\<close>

definition get_video_info ::
  "(string \<Rightarrow> exn + probe) \<Rightarrow> string \<Rightarrow> world \<Rightarrow> video_info option \<times> world" where
  "get_video_info ffprobe input_file w =
     (case bind_exn (ffprobe input_file) video_info_of of
        Inl e \<Rightarrow> (None, st_show (Error ''Error getting video info: '' e) w)
      | Inr info \<Rightarrow> (Some info, w))"

section \<open>The size estimator\<close>

text \<open>
  Line 43 of \<^verbatim>\<open>estimate_size\<close>:
  \<^verbatim>\<open>bitrate_value = int(bitrate.replace('k', '000'))\<close>.
\<close>

definition bitrate_value :: "string \<Rightarrow> exn + int" where
  "bitrate_value bitrate = py_int (py_replace CHR ''k'' ''000'' bitrate)"

text \<open>
  \<^verbatim>\<open>target_width, target_height = map(int, resolution.split('x'))\<close>: exactly two
  pieces, both integers, or \<^verbatim>\<open>ValueError\<close>.
\<close>

definition target_size :: "string \<Rightarrow> exn + int \<times> int" where
  "target_size resolution =
     (case py_split CHR ''x'' resolution of
        [a, b] \<Rightarrow> bind_exn (py_int a) (\<lambda>w. bind_exn (py_int b) (\<lambda>h. Inr (w, h)))
      | _ \<Rightarrow> Inl ValueError)"

text \<open>Lines 47 to 55: the resolution factor.\<close>

definition resolution_factor :: "video_info \<Rightarrow> string \<Rightarrow> exn + real" where
  "resolution_factor info resolution =
     (if resolution \<noteq> ''original'' then
        bind_exn (target_size resolution) (\<lambda>(target_width, target_height).
          let original_area = vi_width info * vi_height info;
              target_area = target_width * target_height
          in if original_area > 0
             then Inr (fl (real_of_int target_area / real_of_int original_area))
             else Inr 1)
      else Inr 1)"

text \<open>
  Lines 58 to 68: the fps factor. The original rate is the \<^verbatim>\<open>int\<close> 30 unless
  \<^verbatim>\<open>eval\<close> returns; the division by it is outside the \<^verbatim>\<open>try\<close>.
\<close>

definition original_fps :: "video_info \<Rightarrow> pynum" where
  "original_fps info =
     (case py_eval (case vi_r_frame_rate info of None \<Rightarrow> ''30/1'' | Some s \<Rightarrow> s) of
        Inl e \<Rightarrow> PyInt 30
      | Inr v \<Rightarrow> v)"

definition fps_factor :: "video_info \<Rightarrow> string \<Rightarrow> exn + real" where
  "fps_factor info fps =
     (if fps \<noteq> ''original'' then
        bind_exn (py_int fps) (\<lambda>target_fps. int_truediv target_fps (original_fps info))
      else Inr 1)"

text \<open>Line 71: the audio factor. The literal \<^verbatim>\<open>0.85\<close> is the double nearest to 85 / 100.\<close>

definition audio_factor :: "video_info \<Rightarrow> bool \<Rightarrow> real" where
  "audio_factor info remove_audio =
     (if remove_audio \<and> vi_has_audio info then fl (85 / 100) else 1)"

text \<open>
  \<^verbatim>\<open>estimate_size\<close> (lines 37 to 77). The result is \<open>None\<close> when there is no metadata,
  and otherwise the value of \<^verbatim>\<open>estimated_mb\<close>: the product is taken from the left, and
  each multiplication and division is rounded. An empty dictionary, which the test
  \<^verbatim>\<open>if not video_info\<close> also rejects, is not a value of the record: the probe never
  returns one.
\<close>

definition estimate_size ::
  "video_info option \<Rightarrow> string \<Rightarrow> bool \<Rightarrow> string \<Rightarrow> string \<Rightarrow> exn + real option" where
  "estimate_size video_info resolution remove_audio fps bitrate =
     (case video_info of
        None \<Rightarrow> Inr None
      | Some info \<Rightarrow>
          bind_exn (bitrate_value bitrate) (\<lambda>bv.
          let duration = vi_duration info in
          bind_exn (resolution_factor info resolution) (\<lambda>rf.
          bind_exn (fps_factor info fps) (\<lambda>ff.
          let af = audio_factor info remove_audio;
              estimated_bytes =
                fl (fl (fl (fl (fl (real_of_int bv / 8) * duration) * rf) * ff) * af);
              estimated_mb = fl (estimated_bytes / (1024 * 1024))
          in Inr (Some estimated_mb)))))"

section \<open>The compression invoker\<close>

text \<open>
  The external encoder is a parameter: it answers a command with the file it produces,
  or with a failure. A process that fails may have left a file, whole or truncated, at
  the output path, or nothing.
\<close>

datatype encode_result = Encoded blob | Failed "blob option"

type_synonym encoder = "encode_cmd \<Rightarrow> encode_result"

text \<open>
  Lines 83 to 117 of \<^verbatim>\<open>compress_video\<close>: the command. The \<open>scale\<close> filter is present
  unless the resolution is \<open>original\<close>, the \<open>fps\<close> filter unless the rate is, and a wrong
  resolution or rate raises before anything runs.
\<close>

definition encode_command ::
  "string \<Rightarrow> string \<Rightarrow> string \<Rightarrow> bool \<Rightarrow> string \<Rightarrow> string \<Rightarrow> string \<Rightarrow> exn + encode_cmd" where
  "encode_command input_file output_file resolution remove_audio fps bitrate ffmpeg_path =
     bind_exn (if resolution \<noteq> ''original''
               then bind_exn (target_size resolution) (\<lambda>wh. Inr (Some wh))
               else Inr None) (\<lambda>scale.
     bind_exn (if fps \<noteq> ''original''
               then bind_exn (py_int fps) (\<lambda>n. Inr (Some n))
               else Inr None) (\<lambda>rate.
     Inr \<lparr>cmd_program = ffmpeg_path, cmd_input = input_file, cmd_scale = scale,
          cmd_fps = rate, cmd_audio = (\<not> remove_audio), cmd_video_bitrate = bitrate,
          cmd_codec = ''libx264'', cmd_output = output_file, cmd_overwrite = True\<rparr>))"

text \<open>
  \<^verbatim>\<open>ffmpeg.run\<close> (line 118): the invocation is recorded; the process fails, writing
  nothing, when the output exists and may not be overwritten; otherwise the encoder
  runs, and the output path holds what it produced or left, whatever the path held
  before. The flag tells whether the call returned.
\<close>

definition ffmpeg_run :: "encoder \<Rightarrow> encode_cmd \<Rightarrow> world \<Rightarrow> bool \<times> world" where
  "ffmpeg_run enc cmd w =
     (let w' = w\<lparr>encodes := encodes w @ [cmd]\<rparr> in
      if \<not> cmd_overwrite cmd \<and> files w (cmd_output cmd) \<noteq> None then (False, w')
      else (case enc cmd of
              Encoded out \<Rightarrow> (True, w'\<lparr>files := (files w')(cmd_output cmd \<mapsto> out)\<rparr>)
            | Failed None \<Rightarrow> (False, w')
            | Failed (Some part) \<Rightarrow> (False, w'\<lparr>files := (files w')(cmd_output cmd \<mapsto> part)\<rparr>)))"

text \<open>
  \<^verbatim>\<open>compress_video\<close> (lines 79 to 122), with the default \<^verbatim>\<open>ffmpeg_path\<close> the caller
  leaves in place. Every exception is caught, shown and turned into \<open>False\<close>.
\<close>

definition compress_video ::
  "encoder \<Rightarrow> string \<Rightarrow> string \<Rightarrow> string \<Rightarrow> bool \<Rightarrow> string \<Rightarrow> string \<Rightarrow> world \<Rightarrow> bool \<times> world" where
  "compress_video enc input_file output_file resolution remove_audio fps bitrate w =
     (case encode_command input_file output_file resolution remove_audio fps bitrate ''ffmpeg'' of
        Inl e \<Rightarrow> (False, st_show (Error ''Error compressing video: '' e) w)
      | Inr cmd \<Rightarrow>
          (case ffmpeg_run enc cmd w of
             (True, w') \<Rightarrow> (True, w')
           | (False, w') \<Rightarrow> (False, st_show (Error ''Error compressing video: '' FfmpegError) w')))"

section \<open>The batch: compression and report\<close>

text \<open>
  The values of \<^verbatim>\<open>videos_data\<close> (lines 189 to 195), the entries of
  \<^verbatim>\<open>compressed_videos\<close> (lines 288 to 293) and the four settings of the sidebar, which
  are local variables of \<^verbatim>\<open>main\<close>. Sizes are floats, in MB.
\<close>

record video_data =
  vd_name :: string
  vd_path :: string
  vd_original_size :: real
  vd_video_info :: "video_info option"
  vd_selected_for_compression :: bool

record compressed_video =
  cv_name :: string
  cv_output_path :: string
  cv_original_size :: real
  cv_compressed_size :: real

record settings =
  s_resolution :: string
  s_remove_audio :: bool
  s_fps :: string
  s_bitrate :: string

text \<open>\<^verbatim>\<open>os.path.join(a, b)\<close> on a POSIX system, for two components.\<close>

definition path_join :: "string \<Rightarrow> string \<Rightarrow> string" where
  "path_join a b =
     (if b \<noteq> [] \<and> hd b = CHR ''/'' then b
      else if a = [] \<or> last a = CHR ''/'' then a @ b
      else a @ ''/'' @ b)"

text \<open>
  Lines 273 and 274: the output path of an item. The directory of temporary files,
  \<^verbatim>\<open>tempfile.gettempdir()\<close>, is a parameter.
\<close>

definition output_path_of :: "string \<Rightarrow> video_data \<Rightarrow> string" where
  "output_path_of tmpdir video_data =
     (let output_filename = ''compressed_'' @ vd_name video_data
      in path_join tmpdir output_filename)"

text \<open>
  The loop of lines 269 to 296 over the selected items, with the list
  \<^verbatim>\<open>compressed_videos\<close> built so far. The status line and the progress bar, which are
  emptied after the loop, are left out.
\<close>

fun compress_loop ::
  "encoder \<Rightarrow> string \<Rightarrow> settings \<Rightarrow> video_data list \<Rightarrow> compressed_video list \<Rightarrow> world
     \<Rightarrow> (exn + compressed_video list) \<times> world" where
  "compress_loop enc tmpdir s [] compressed_videos w = (Inr compressed_videos, w)"
| "compress_loop enc tmpdir s (video_data # rest) compressed_videos w =
     (let output_path = output_path_of tmpdir video_data in
      case compress_video enc (vd_path video_data) output_path
             (s_resolution s) (s_remove_audio s) (s_fps s) (s_bitrate s) w of
        (True, w1) \<Rightarrow>
          (case get_file_size (files w1) output_path of
             Inl e \<Rightarrow> (Inl e, w1)
           | Inr compressed_size \<Rightarrow>
               compress_loop enc tmpdir s rest
                 (compressed_videos @
                    [\<lparr>cv_name = vd_name video_data, cv_output_path = output_path,
                      cv_original_size = vd_original_size video_data,
                      cv_compressed_size = compressed_size\<rparr>]) w1)
      | (False, w1) \<Rightarrow> compress_loop enc tmpdir s rest compressed_videos w1)"

text \<open>
  \<^verbatim>\<open>(1 - compressed / original) * 100\<close> on floats (lines 321 and 350): the division
  raises on a zero divisor.
\<close>

definition reduction :: "real \<Rightarrow> real \<Rightarrow> exn + real" where
  "reduction compressed original =
     (if original = 0 then Inl ZeroDivisionError
      else Inr (fl (fl (1 - fl (compressed / original)) * 100)))"

text \<open>
  Lines 304 to 322: the totals. The reduction is computed when the third metric is
  built, after the first two are on the page.
\<close>

definition show_totals :: "compressed_video list \<Rightarrow> world \<Rightarrow> exn option \<times> world" where
  "show_totals compressed_videos w =
     (let w1 = st_show (Subheader ''Compression Results'') w;
          total_original = py_sum (map cv_original_size compressed_videos);
          total_compressed = py_sum (map cv_compressed_size compressed_videos);
          w2 = st_show (Metric ''Total Original Size'' total_original) w1;
          w3 = st_show (Metric ''Total Compressed Size'' total_compressed) w2
      in case reduction total_compressed total_original of
           Inl e \<Rightarrow> (Some e, w3)
         | Inr r \<Rightarrow> (None, st_show (Metric ''Total Reduction'' r) w3))"

text \<open>
  Lines 334 to 365: the compressed videos, in the order of the list (the rows and
  columns of the grid only place them on the page). Each shows its name in bold, its
  reduction, the file found at its output path and a download button for that file.
\<close>

fun show_videos :: "compressed_video list \<Rightarrow> world \<Rightarrow> exn option \<times> world" where
  "show_videos [] w = (None, w)"
| "show_videos (video # rest) w =
     (let w1 = st_show (Write (''**'' @ cv_name video @ ''**'')) w in
      case reduction (cv_compressed_size video) (cv_original_size video) of
        Inl e \<Rightarrow> (Some e, w1)
      | Inr r \<Rightarrow>
          (let w2 = st_show (Metric ''Size Reduction'' r) w1
           in case files w2 (cv_output_path video) of
                None \<Rightarrow> (Some FileNotFoundError, w2)
              | Some f \<Rightarrow>
                  show_videos rest
                    (st_show (DownloadButton (''compressed_'' @ cv_name video) f)
                       (st_show (Video f) w2))))"

text \<open>Lines 303 to 365: nothing at all is displayed for an empty list of results.\<close>

definition show_results :: "compressed_video list \<Rightarrow> world \<Rightarrow> exn option \<times> world" where
  "show_results compressed_videos w =
     (if compressed_videos \<noteq> [] then
        (case show_totals compressed_videos w of
           (Some e, w1) \<Rightarrow> (Some e, w1)
         | (None, w1) \<Rightarrow>
             show_videos compressed_videos (st_show (Write ''### Compressed Videos'') w1))
      else (None, w))"

text \<open>
  Lines 256 to 365 of \<^verbatim>\<open>main\<close>: what a press of the compress button does. The
  dictionary \<^verbatim>\<open>videos_data\<close> is the list of its items in insertion order, which is
  upload order.
\<close>

definition compress_pressed ::
  "encoder \<Rightarrow> string \<Rightarrow> settings \<Rightarrow> (string \<times> video_data) list \<Rightarrow> world \<Rightarrow> exn option \<times> world" where
  "compress_pressed enc tmpdir s videos_data w =
     (let selected_videos = filter vd_selected_for_compression (map snd videos_data) in
      if selected_videos = [] then
        (None, st_show (Warning ''Please select at least one video to compress.'') w)
      else
        (case compress_loop enc tmpdir s selected_videos [] w of
           (Inl e, w1) \<Rightarrow> (Some e, w1)
         | (Inr compressed_videos, w1) \<Rightarrow> show_results compressed_videos w1))"

section \<open>Notions used to state the properties\<close>

text \<open>
  The command of an item of the batch under the shared settings, what the encoder
  produces for it (nothing when the command cannot be built or the process fails), the
  file its compression puts at the output path, and the message of its failure.
\<close>

definition item_command :: "string \<Rightarrow> settings \<Rightarrow> video_data \<Rightarrow> exn + encode_cmd" where
  "item_command tmpdir s v =
     encode_command (vd_path v) (output_path_of tmpdir v)
       (s_resolution s) (s_remove_audio s) (s_fps s) (s_bitrate s) ''ffmpeg''"

definition encode_outcome :: "encoder \<Rightarrow> string \<Rightarrow> settings \<Rightarrow> video_data \<Rightarrow> blob option" where
  "encode_outcome enc tmpdir s v =
     (case item_command tmpdir s v of
        Inl e \<Rightarrow> None
      | Inr cmd \<Rightarrow> (case enc cmd of Encoded out \<Rightarrow> Some out | Failed part \<Rightarrow> None))"

definition item_written :: "encoder \<Rightarrow> string \<Rightarrow> settings \<Rightarrow> video_data \<Rightarrow> blob option" where
  "item_written enc tmpdir s v =
     (case item_command tmpdir s v of
        Inl e \<Rightarrow> None
      | Inr cmd \<Rightarrow> (case enc cmd of Encoded out \<Rightarrow> Some out | Failed part \<Rightarrow> part))"

definition item_failure :: "encoder \<Rightarrow> string \<Rightarrow> settings \<Rightarrow> video_data \<Rightarrow> ui_event option" where
  "item_failure enc tmpdir s v =
     (case item_command tmpdir s v of
        Inl e \<Rightarrow> Some (Error ''Error compressing video: '' e)
      | Inr cmd \<Rightarrow>
          (case enc cmd of
             Encoded out \<Rightarrow> None
           | Failed part \<Rightarrow> Some (Error ''Error compressing video: '' FfmpegError)))"

definition success_entry :: "string \<Rightarrow> video_data \<Rightarrow> blob \<Rightarrow> compressed_video" where
  "success_entry tmpdir v out =
     \<lparr>cv_name = vd_name v, cv_output_path = output_path_of tmpdir v,
      cv_original_size = vd_original_size v,
      cv_compressed_size = fl (real (nbytes out) / (1024 * 1024))\<rparr>"

text \<open>
  For a batch: the entries of the items that were compressed, the commands handed to
  the encoder, the messages of the failures, the files after the batch, and the state
  after the batch.
\<close>

definition batch_entries ::
  "encoder \<Rightarrow> string \<Rightarrow> settings \<Rightarrow> video_data list \<Rightarrow> compressed_video list" where
  "batch_entries enc tmpdir s vs =
     List.map_filter (\<lambda>v. map_option (success_entry tmpdir v) (encode_outcome enc tmpdir s v)) vs"

definition batch_commands :: "string \<Rightarrow> settings \<Rightarrow> video_data list \<Rightarrow> encode_cmd list" where
  "batch_commands tmpdir s vs =
     List.map_filter (\<lambda>v. case item_command tmpdir s v of Inl e \<Rightarrow> None | Inr cmd \<Rightarrow> Some cmd) vs"

definition batch_errors ::
  "encoder \<Rightarrow> string \<Rightarrow> settings \<Rightarrow> video_data list \<Rightarrow> ui_event list" where
  "batch_errors enc tmpdir s vs = List.map_filter (item_failure enc tmpdir s) vs"

definition batch_files ::
  "encoder \<Rightarrow> string \<Rightarrow> settings \<Rightarrow> video_data list \<Rightarrow> (string \<rightharpoonup> blob) \<Rightarrow> (string \<rightharpoonup> blob)" where
  "batch_files enc tmpdir s vs fs =
     foldl (\<lambda>fs v. case item_written enc tmpdir s v of
                      None \<Rightarrow> fs
                    | Some out \<Rightarrow> fs(output_path_of tmpdir v \<mapsto> out)) fs vs"

definition after_batch ::
  "encoder \<Rightarrow> string \<Rightarrow> settings \<Rightarrow> video_data list \<Rightarrow> world \<Rightarrow> world" where
  "after_batch enc tmpdir s vs w =
     w\<lparr>files := batch_files enc tmpdir s vs (files w),
       encodes := encodes w @ batch_commands tmpdir s vs,
       ui := ui w @ batch_errors enc tmpdir s vs\<rparr>"

definition is_error_event :: "ui_event \<Rightarrow> bool" where
  "is_error_event ev = (case ev of Error msg e \<Rightarrow> True | _ \<Rightarrow> False)"

text \<open>
  The four elements the report puts first on the page when there are results and their
  total original size is not zero.
\<close>

definition totals_shown :: "real \<Rightarrow> real \<Rightarrow> ui_event list" where
  "totals_shown total_original total_compressed =
     [Subheader ''Compression Results'',
      Metric ''Total Original Size'' total_original,
      Metric ''Total Compressed Size'' total_compressed,
      Metric ''Total Reduction'' (fl (fl (1 - fl (total_compressed / total_original)) * 100))]"

text \<open>
  Sample data: the sidebar's defaults, an empty state, two uploads, and an encoder that
  compresses the first to 3 MB and fails on everything else, leaving nothing.
\<close>

definition default_settings :: settings where
  "default_settings =
     \<lparr>s_resolution = ''1280x720'', s_remove_audio = True, s_fps = ''24'', s_bitrate = ''1000k''\<rparr>"

definition empty_world :: world where
  "empty_world = \<lparr>files = Map.empty, encodes = [], ui = []\<rparr>"

definition item_A :: video_data where
  "item_A = \<lparr>vd_name = ''a.mp4'', vd_path = ''/tmp/tmpa.mp4'', vd_original_size = 10,
             vd_video_info = None, vd_selected_for_compression = True\<rparr>"

definition item_B :: video_data where
  "item_B = \<lparr>vd_name = ''b.mp4'', vd_path = ''/tmp/tmpb.mp4'', vd_original_size = 20,
             vd_video_info = None, vd_selected_for_compression = True\<rparr>"

definition blob_A :: blob where
  "blob_A = \<lparr>payload = ''a, compressed'', nbytes = 3145728\<rparr>"

definition encoder_A_only :: encoder where
  "encoder_A_only cmd =
     (if cmd_input cmd = ''/tmp/tmpa.mp4'' then Encoded blob_A else Failed None)"

text \<open>
  The metadata of the worked example: a clip of 1920 by 1080, ten seconds long, with
  audio, at 30 frames per second. The output of the probe for a clip at 60 frames per
  second, and the dictionary \<^verbatim>\<open>get_video_info\<close> makes of it.
\<close>

definition spec_clip :: video_info where
  "spec_clip =
     \<lparr>vi_width = 1920, vi_height = 1080, vi_duration = 10, vi_bitrate = 8000000,
      vi_size = 10000000, vi_has_audio = True, vi_r_frame_rate = Some ''30/1''\<rparr>"

definition clip60 :: probe where
  "clip60 =
     \<lparr>probe_streams = Some
        [[''codec_type'' \<mapsto> JStr ''video'', ''width'' \<mapsto> JInt 1920, ''height'' \<mapsto> JInt 1080,
          ''r_frame_rate'' \<mapsto> JStr ''60/1''],
         [''codec_type'' \<mapsto> JStr ''audio'']],
      probe_format = Some
        [''duration'' \<mapsto> JStr ''10.000000'', ''bit_rate'' \<mapsto> JStr ''8000000'',
         ''size'' \<mapsto> JStr ''10000000'']\<rparr>"

definition clip60_info :: video_info where
  "clip60_info =
     \<lparr>vi_width = 1920, vi_height = 1080, vi_duration = 10, vi_bitrate = 8000000,
      vi_size = 10000000, vi_has_audio = True, vi_r_frame_rate = None\<rparr>"

text \<open>
  A second upload under the name of \<open>item_A\<close>, and an encoder that serves both uploads
  of that name.
\<close>

definition item_A2 :: video_data where
  "item_A2 = \<lparr>vd_name = ''a.mp4'', vd_path = ''/tmp/tmpa2.mp4'', vd_original_size = 40,
              vd_video_info = None, vd_selected_for_compression = True\<rparr>"

definition blob_A2 :: blob where
  "blob_A2 = \<lparr>payload = ''a2, compressed'', nbytes = 5242880\<rparr>"

definition encoder_both_A :: encoder where
  "encoder_both_A cmd =
     (if cmd_input cmd = ''/tmp/tmpa.mp4'' then Encoded blob_A
      else if cmd_input cmd = ''/tmp/tmpa2.mp4'' then Encoded blob_A2
      else Failed None)"

section \<open>Facts about rounding\<close>

lemma bitlen_eqI:
  assumes "0 \<le> p" "2 ^ nat p \<le> m" "m < 2 ^ nat (p + 1)"
  shows "bitlen m = p + 1"
proof -
  have "(0::int) < 2 ^ nat p"
    by simp
  with assms have m: "0 < m"
    by linarith
  from bitlen_bounds [OF m] have b: "2 ^ nat (bitlen m - 1) \<le> m" "m < 2 ^ nat (bitlen m)"
    by simp_all
  have "bitlen m - 1 < p + 1"
  proof (rule ccontr)
    assume "\<not> bitlen m - 1 < p + 1"
    then have "nat (p + 1) \<le> nat (bitlen m - 1)" by simp
    then have "(2::int) ^ nat (p + 1) \<le> 2 ^ nat (bitlen m - 1)"
      by (rule power_increasing) simp
    with b assms show False by simp
  qed
  moreover have "p < bitlen m"
  proof (rule ccontr)
    assume "\<not> p < bitlen m"
    then have "nat (bitlen m) \<le> nat p" by simp
    then have "(2::int) ^ nat (bitlen m) \<le> 2 ^ nat p"
      by (rule power_increasing) simp
    with b assms show False by simp
  qed
  ultimately show ?thesis by simp
qed

lemma ilog2_unique:
  assumes x: "0 < x" and lo: "2 powi n \<le> x" and hi: "x < 2 powi (n + 1)"
  shows "ilog2 x = n"
proof (cases "1 \<le> x")
  case True
  have n: "0 \<le> n"
  proof (rule ccontr)
    assume "\<not> 0 \<le> n"
    then have "n + 1 \<le> 0" by simp
    then have "(2::real) powi (n + 1) \<le> 2 powi 0"
      by (intro power_int_increasing) simp_all
    with hi True show False by simp
  qed
  from lo n have "of_int (2 ^ nat n) \<le> x"
    by (simp add: power_int_nonneg_exp)
  then have l: "2 ^ nat n \<le> \<lfloor>x\<rfloor>"
    by (simp only: le_floor_iff)
  from hi n have "x < of_int (2 ^ nat (n + 1))"
    by (simp add: power_int_nonneg_exp)
  then have "of_int \<lfloor>x\<rfloor> < (of_int (2 ^ nat (n + 1)) :: real)"
    using of_int_floor_le [of x] by linarith
  then have h: "\<lfloor>x\<rfloor> < 2 ^ nat (n + 1)"
    by (simp only: of_int_less_iff)
  from bitlen_eqI [OF n l h] True show ?thesis
    by (simp add: ilog2_def)
next
  case False
  define p where "p = - n - 1"
  define y where "y = 1 / x"
  have n: "n < 0"
  proof (rule ccontr)
    assume "\<not> n < 0"
    then have "(2::real) powi 0 \<le> 2 powi n"
      by (intro power_int_increasing) simp_all
    with lo False show False by simp
  qed
  then have p: "0 \<le> p" by (simp add: p_def)
  have i1: "n = - (p + 1)" and i2: "n + 1 = - p"
    by (simp_all add: p_def)
  have "(2::real) powi n = 2 powi (- (p + 1))"
    by (simp only: i1 [symmetric])
  also have "\<dots> = inverse (2 powi (p + 1))"
    by (rule power_int_minus)
  also have "\<dots> = 1 / 2 ^ nat (p + 1)"
    using p by (simp add: power_int_nonneg_exp inverse_eq_divide)
  finally have xlo: "1 / 2 ^ nat (p + 1) \<le> x"
    using lo by simp
  have "(2::real) powi (n + 1) = 2 powi (- p)"
    by (simp only: i2)
  also have "\<dots> = inverse (2 powi p)"
    by (rule power_int_minus)
  also have "\<dots> = 1 / 2 ^ nat p"
    using p by (simp add: power_int_nonneg_exp inverse_eq_divide)
  finally have xhi: "x < 1 / 2 ^ nat p"
    using hi by simp
  have ylo: "2 ^ nat p < y"
    using xhi x by (simp add: y_def field_simps)
  have yhi: "y \<le> 2 ^ nat (p + 1)"
    using xlo x by (simp add: y_def field_simps)
  from ylo have "of_int (2 ^ nat p) < y" by simp
  then have "2 ^ nat p < \<lceil>y\<rceil>"
    by (simp only: less_ceiling_iff)
  then have l: "2 ^ nat p \<le> \<lceil>y\<rceil> - 1" by simp
  from yhi have "y \<le> of_int (2 ^ nat (p + 1))" by simp
  then have "\<lceil>y\<rceil> \<le> 2 ^ nat (p + 1)"
    by (simp only: ceiling_le_iff)
  then have h: "\<lceil>y\<rceil> - 1 < 2 ^ nat (p + 1)" by simp
  from bitlen_eqI [OF p l h] False show ?thesis
    by (simp add: ilog2_def y_def p_def)
qed

text \<open>
  How a rounding is evaluated: scale the number by a power of two into the range of the
  53-bit mantissas, round it there to an integer, and scale back.
\<close>

lemma fl_eqI:
  assumes m: "m = round_half_even (x * 2 powi k)"
    and lo: "2 powi 52 \<le> \<bar>x\<bar> * 2 powi k"
    and hi: "\<bar>x\<bar> * 2 powi k < 2 powi 53"
    and r: "r = of_int m / 2 powi k"
  shows "fl x = r"
proof -
  have pos: "0 < (2::real) powi j" for j by simp
  from lo have x0: "x \<noteq> 0"
    by (auto simp: power_int_def)
  have "2 powi (52 - k) \<le> \<bar>x\<bar>"
    using lo pos [of k] by (simp add: power_int_diff field_simps)
  moreover have "\<bar>x\<bar> < 2 powi (52 - k + 1)"
    using hi pos [of k] by (simp add: power_int_diff power_int_add field_simps)
  ultimately have "ilog2 \<bar>x\<bar> = 52 - k"
    using x0 by (intro ilog2_unique) simp_all
  then have f: "fl x = of_int (round_half_even (x / 2 powi (- k))) * 2 powi (- k)"
    using x0 by (simp add: fl_def Let_def)
  have a: "x / 2 powi (- k) = x * 2 powi k"
    by (simp add: power_int_minus field_simps)
  have b: "of_int m * 2 powi (- k) = of_int m / (2::real) powi k"
    by (simp add: power_int_minus field_simps)
  show ?thesis
    unfolding f a m [symmetric] b r ..
qed


lemma fl_1: "fl 1 = 1"
  by (rule fl_eqI [where k = 52 and m = 4503599627370496]) (simp_all add: round_half_even_def)

lemma fl_30: "fl 30 = 30"
  by (rule fl_eqI [where k = 48 and m = 8444249301319680]) (simp_all add: round_half_even_def)

section \<open>Facts about the builtins\<close>

lemma digit_not_space: "is_digit c \<Longrightarrow> \<not> is_space c"
  by (auto simp: is_digit_def is_space_def)

lemma dropWhile_space_digits: "list_all is_digit ds \<Longrightarrow> dropWhile is_space ds = ds"
  by (cases ds) (simp_all add: digit_not_space)

lemma py_strip_digits: "list_all is_digit ds \<Longrightarrow> py_strip ds = ds"
proof -
  assume d: "list_all is_digit ds"
  then have "list_all is_digit (rev ds)"
    by (simp add: list_all_iff)
  then have "dropWhile is_space (rev ds) = rev ds"
    by (rule dropWhile_space_digits)
  with d show ?thesis
    by (simp add: py_strip_def dropWhile_space_digits)
qed

lemma split_sign_digits: "list_all is_digit ds \<Longrightarrow> split_sign ds = (False, ds)"
  by (cases ds) (auto simp: split_sign_def is_digit_def)

lemma py_split_absent: "sep \<notin> set s \<Longrightarrow> py_split sep s = [s]"
  by (induction s) auto

lemma underscore_not_digit: "list_all is_digit ds \<Longrightarrow> CHR ''_'' \<notin> set ds"
proof
  assume "list_all is_digit ds" and "CHR ''_'' \<in> set ds"
  then have "is_digit CHR ''_''"
    by (simp add: list_all_iff)
  then show False
    by (simp add: is_digit_def)
qed

lemma py_int_digits:
  assumes "ds \<noteq> []" and "list_all is_digit ds"
  shows "py_int ds = Inr (dec_val ds)"
  using assms
  by (simp add: py_int_def py_strip_digits split_sign_digits
      py_split_absent underscore_not_digit)

lemma dec_val_append: "dec_val (xs @ ys) = foldl (\<lambda>n c. 10 * n + digit_val c) (dec_val xs) ys"
  by (simp add: dec_val_def)

lemma dec_val_thousand: "dec_val (ds @ ''000'') = dec_val ds * 1000"
  by (simp add: dec_val_append digit_val_def)

lemma py_replace_absent: "old \<notin> set s \<Longrightarrow> py_replace old new s = s"
  by (induction s) (auto simp: py_replace_def)

lemma py_replace_append: "py_replace old new (xs @ ys) = py_replace old new xs @ py_replace old new ys"
  by (simp add: py_replace_def)

lemma k_not_digit: "list_all is_digit ds \<Longrightarrow> CHR ''k'' \<notin> set ds"
proof
  assume "list_all is_digit ds" and "CHR ''k'' \<in> set ds"
  then have "is_digit CHR ''k''"
    by (simp add: list_all_iff)
  then show False
    by (simp add: is_digit_def)
qed

lemma digits_000: "list_all is_digit ''000''"
  by (simp add: is_digit_def)

section \<open>Facts about the estimator\<close>

lemma py_eval_default: "py_eval ''30/1'' = Inr (PyFloat 30)"
  by (simp add: py_eval_def int_literal_def is_digit_def dec_val_def digit_val_def fl_30)

lemma original_fps_default: "vi_r_frame_rate info = None \<Longrightarrow> original_fps info = PyFloat 30"
  by (simp add: original_fps_def py_eval_default)

lemma bind_exn_Inr_iff:
  "bind_exn m f = Inr y \<longleftrightarrow> (\<exists>x. m = Inr x \<and> f x = Inr y)"
  by (cases m) (simp_all add: bind_exn_def)


lemma video_info_of_no_rate:
  assumes "video_info_of p = Inr info"
  shows "vi_r_frame_rate info = None"
  using assms
  by (auto simp: video_info_of_def bind_exn_Inr_iff Let_def split: option.splits)

lemma get_video_info_Some:
  assumes "get_video_info ffprobe input_file w = (Some info, w')"
  shows "\<exists>p. ffprobe input_file = Inr p \<and> video_info_of p = Inr info"
  using assms
  by (cases "ffprobe input_file") (auto simp: get_video_info_def bind_exn_def split: sum.splits)







lemma original_fps_duration [simp]:
  "original_fps (info\<lparr>vi_duration := d\<rparr>) = original_fps info"
  by (simp add: original_fps_def)




lemma estimate_size_cases:
  "estimate_size (Some info) resolution remove_audio fps bitrate =
     (case bitrate_value bitrate of
        Inl e \<Rightarrow> Inl e
      | Inr bv \<Rightarrow>
          (case resolution_factor info resolution of
             Inl e \<Rightarrow> Inl e
           | Inr rf \<Rightarrow>
               (case fps_factor info fps of
                  Inl e \<Rightarrow> Inl e
                | Inr ff \<Rightarrow>
                    Inr (Some (fl (fl (fl (fl (fl (fl (real_of_int bv / 8) * vi_duration info)
                                                 * rf) * ff) * audio_factor info remove_audio)
                                   / (1024 * 1024)))))))"
  by (simp add: estimate_size_def bind_exn_def Let_def split: sum.splits)

section \<open>Facts about the batch\<close>

lemma encode_command_fields:
  "encode_command i out r ra f b p = Inr cmd \<Longrightarrow> cmd_output cmd = out \<and> cmd_overwrite cmd"
  by (auto simp: encode_command_def bind_exn_Inr_iff split: if_splits)

lemma batch_entries_Nil: "batch_entries enc tmpdir s [] = []"
  by (simp add: batch_entries_def List.map_filter_simps)

lemma batch_entries_Cons:
  "batch_entries enc tmpdir s (v # vs) =
     (case encode_outcome enc tmpdir s v of
        None \<Rightarrow> batch_entries enc tmpdir s vs
      | Some out \<Rightarrow> success_entry tmpdir v out # batch_entries enc tmpdir s vs)"
  by (simp add: batch_entries_def List.map_filter_simps split: option.splits)

lemma batch_entries_append:
  "batch_entries enc tmpdir s (xs @ ys) = batch_entries enc tmpdir s xs @ batch_entries enc tmpdir s ys"
  by (induction xs) (simp_all add: batch_entries_Nil batch_entries_Cons split: option.splits)

lemma batch_commands_append:
  "batch_commands tmpdir s (xs @ ys) = batch_commands tmpdir s xs @ batch_commands tmpdir s ys"
  by (simp add: batch_commands_def List.map_filter_def)

lemma batch_errors_append:
  "batch_errors enc tmpdir s (xs @ ys) = batch_errors enc tmpdir s xs @ batch_errors enc tmpdir s ys"
  by (simp add: batch_errors_def List.map_filter_def)

lemma batch_files_append:
  "batch_files enc tmpdir s (xs @ ys) fs = batch_files enc tmpdir s ys (batch_files enc tmpdir s xs fs)"
  by (simp add: batch_files_def)

lemma after_batch_Nil: "after_batch enc tmpdir s [] w = w"
  by (simp add: after_batch_def batch_files_def batch_commands_def batch_errors_def
      List.map_filter_simps)

lemma after_batch_append:
  "after_batch enc tmpdir s (xs @ ys) w = after_batch enc tmpdir s ys (after_batch enc tmpdir s xs w)"
  by (simp add: after_batch_def batch_files_append batch_commands_append batch_errors_append)

lemma after_batch_Cons:
  "after_batch enc tmpdir s (v # vs) w = after_batch enc tmpdir s vs (after_batch enc tmpdir s [v] w)"
  using after_batch_append [of enc tmpdir s "[v]" vs w] by simp

lemma after_batch_one_files:
  "files (after_batch enc tmpdir s [v] w) =
     (case item_written enc tmpdir s v of
        None \<Rightarrow> files w
      | Some out \<Rightarrow> (files w)(output_path_of tmpdir v \<mapsto> out))"
  by (simp add: after_batch_def batch_files_def)

lemma outcome_written:
  "encode_outcome enc tmpdir s v = Some out \<Longrightarrow> item_written enc tmpdir s v = Some out"
  by (auto simp: encode_outcome_def item_written_def split: sum.splits encode_result.splits)

text \<open>One call of \<^verbatim>\<open>compress_video\<close> on an item of the batch.\<close>

lemma compress_video_item:
  "compress_video enc (vd_path v) (output_path_of tmpdir v)
     (s_resolution s) (s_remove_audio s) (s_fps s) (s_bitrate s) w =
   (encode_outcome enc tmpdir s v \<noteq> None, after_batch enc tmpdir s [v] w)"
proof (cases "item_command tmpdir s v")
  case (Inl e)
  then have "encode_command (vd_path v) (output_path_of tmpdir v)
       (s_resolution s) (s_remove_audio s) (s_fps s) (s_bitrate s) ''ffmpeg'' = Inl e"
    by (simp add: item_command_def)
  with Inl show ?thesis
    by (simp add: compress_video_def encode_outcome_def after_batch_def batch_files_def
        item_written_def batch_commands_def batch_errors_def item_failure_def
        List.map_filter_simps st_show_def)
next
  case (Inr cmd)
  then have c: "encode_command (vd_path v) (output_path_of tmpdir v)
       (s_resolution s) (s_remove_audio s) (s_fps s) (s_bitrate s) ''ffmpeg'' = Inr cmd"
    by (simp add: item_command_def)
  from encode_command_fields [OF c] have o: "cmd_output cmd = output_path_of tmpdir v"
    and ov: "cmd_overwrite cmd"
    by simp_all
  show ?thesis
  proof (cases "enc cmd")
    case (Encoded out)
    with Inr c o ov show ?thesis
      by (simp add: compress_video_def ffmpeg_run_def encode_outcome_def after_batch_def
          batch_files_def item_written_def batch_commands_def batch_errors_def
          item_failure_def List.map_filter_simps)
  next
    case (Failed part)
    with Inr c o ov show ?thesis
      by (cases part)
        (simp_all add: compress_video_def ffmpeg_run_def encode_outcome_def after_batch_def
          batch_files_def item_written_def batch_commands_def batch_errors_def
          item_failure_def List.map_filter_simps st_show_def)
  qed
qed

text \<open>The loop never raises, and what it returns and leaves is a function of the batch.\<close>

lemma compress_loop_total:
  "compress_loop enc tmpdir s vs acc w =
     (Inr (acc @ batch_entries enc tmpdir s vs), after_batch enc tmpdir s vs w)"
proof (induction vs arbitrary: acc w)
  case Nil
  show ?case
    by (simp add: batch_entries_Nil after_batch_Nil)
next
  case (Cons v vs)
  show ?case
  proof (cases "encode_outcome enc tmpdir s v")
    case None
    then show ?thesis
      by (simp add: compress_video_item Cons.IH batch_entries_Cons after_batch_Cons [of _ _ _ v vs])
  next
    case (Some out)
    then have "files (after_batch enc tmpdir s [v] w) (output_path_of tmpdir v) = Some out"
      by (simp add: after_batch_one_files outcome_written)
    with Some show ?thesis
      by (simp add: compress_video_item get_file_size_def Cons.IH batch_entries_Cons
          success_entry_def after_batch_Cons [of _ _ _ v vs])
  qed
qed

lemma compress_loop_append:
  "compress_loop enc tmpdir s (xs @ ys) acc w =
     compress_loop enc tmpdir s ys (acc @ batch_entries enc tmpdir s xs) (after_batch enc tmpdir s xs w)"
  by (simp add: compress_loop_total batch_entries_append after_batch_append)

lemma batch_entries_filter:
  "batch_entries enc tmpdir s vs =
     map (\<lambda>v. success_entry tmpdir v (the (encode_outcome enc tmpdir s v)))
       (filter (\<lambda>v. encode_outcome enc tmpdir s v \<noteq> None) vs)"
  by (induction vs) (auto simp: batch_entries_Nil batch_entries_Cons split: option.splits)

lemma batch_entries_originals:
  "map cv_original_size (batch_entries enc tmpdir s vs) =
     map vd_original_size (filter (\<lambda>v. encode_outcome enc tmpdir s v \<noteq> None) vs)"
  by (simp add: batch_entries_filter success_entry_def comp_def)

lemma batch_entries_compressed:
  "map cv_compressed_size (batch_entries enc tmpdir s vs) =
     map (\<lambda>v. fl (real (nbytes (the (encode_outcome enc tmpdir s v))) / (1024 * 1024)))
       (filter (\<lambda>v. encode_outcome enc tmpdir s v \<noteq> None) vs)"
  by (simp add: batch_entries_filter success_entry_def comp_def)

lemma batch_errors_are_errors: "list_all is_error_event (batch_errors enc tmpdir s vs)"
proof (induction vs)
  case Nil
  show ?case
    by (simp add: batch_errors_def List.map_filter_simps)
next
  case (Cons v vs)
  then show ?case
    by (auto simp: batch_errors_def List.map_filter_simps item_failure_def is_error_event_def
        split: option.splits sum.splits encode_result.splits)
qed

lemma batch_files_last:
  "item_written enc tmpdir s v = Some out \<Longrightarrow>
   batch_files enc tmpdir s (vs @ [v]) fs (output_path_of tmpdir v) = Some out"
  by (simp add: batch_files_def)

lemma output_path_same_name:
  "vd_name a = vd_name b \<Longrightarrow> output_path_of tmpdir a = output_path_of tmpdir b"
  by (simp add: output_path_of_def)

text \<open>The report.\<close>

lemma show_totals_shown:
  assumes "py_sum (map cv_original_size cvs) \<noteq> 0"
  shows "show_totals cvs w =
     (None, w\<lparr>ui := ui w @ totals_shown (py_sum (map cv_original_size cvs))
                                        (py_sum (map cv_compressed_size cvs))\<rparr>)"
  using assms by (simp add: show_totals_def reduction_def totals_shown_def st_show_def Let_def)

lemma show_videos_extends:
  "\<exists>more. ui (snd (show_videos cvs w)) = ui w @ more"
proof (induction cvs arbitrary: w)
  case Nil
  show ?case by simp
next
  case (Cons video rest)
  show ?case
  proof (cases "reduction (cv_compressed_size video) (cv_original_size video)")
    case (Inl e)
    then show ?thesis
      by (simp add: st_show_def)
  next
    case (Inr r)
    show ?thesis
    proof (cases "files w (cv_output_path video)")
      case None
      with Inr show ?thesis
        by (simp add: st_show_def Let_def)
    next
      case (Some f)
      from Cons.IH [of "st_show (DownloadButton (''compressed_'' @ cv_name video) f)
            (st_show (Video f) (st_show (Metric ''Size Reduction'' r)
              (st_show (Write (''**'' @ cv_name video @ ''**'')) w)))"]
      obtain more where
        "ui (snd (show_videos rest (st_show (DownloadButton (''compressed_'' @ cv_name video) f)
            (st_show (Video f) (st_show (Metric ''Size Reduction'' r)
              (st_show (Write (''**'' @ cv_name video @ ''**'')) w)))))) =
         ui (st_show (DownloadButton (''compressed_'' @ cv_name video) f)
            (st_show (Video f) (st_show (Metric ''Size Reduction'' r)
              (st_show (Write (''**'' @ cv_name video @ ''**'')) w)))) @ more"
        by blast
      with Inr Some show ?thesis
        by (simp add: st_show_def Let_def)
    qed
  qed
qed

lemma compress_pressed_selected:
  assumes "filter vd_selected_for_compression (map snd videos_data) \<noteq> []"
  shows "compress_pressed enc tmpdir s videos_data w =
     show_results
       (batch_entries enc tmpdir s (filter vd_selected_for_compression (map snd videos_data)))
       (after_batch enc tmpdir s (filter vd_selected_for_compression (map snd videos_data)) w)"
  using assms by (simp add: compress_pressed_def compress_loop_total Let_def)

text \<open>
  When something was compressed and the total original size is not zero, the page after
  the press starts with what it held, the failures of the batch and the totals.
\<close>

lemma compress_pressed_totals:
  assumes e: "batch_entries enc tmpdir s (filter vd_selected_for_compression (map snd videos_data)) \<noteq> []"
    and t: "py_sum (map cv_original_size
              (batch_entries enc tmpdir s (filter vd_selected_for_compression (map snd videos_data)))) \<noteq> 0"
  shows "\<exists>more. ui (snd (compress_pressed enc tmpdir s videos_data w)) =
     ui w @ batch_errors enc tmpdir s (filter vd_selected_for_compression (map snd videos_data))
       @ totals_shown
           (py_sum (map cv_original_size
              (batch_entries enc tmpdir s (filter vd_selected_for_compression (map snd videos_data)))))
           (py_sum (map cv_compressed_size
              (batch_entries enc tmpdir s (filter vd_selected_for_compression (map snd videos_data)))))
       @ more"
proof -
  let ?sel = "filter vd_selected_for_compression (map snd videos_data)"
  let ?cvs = "batch_entries enc tmpdir s ?sel"
  let ?w1 = "after_batch enc tmpdir s ?sel w"
  let ?w2 = "?w1\<lparr>ui := ui ?w1 @ totals_shown (py_sum (map cv_original_size ?cvs))
                                          (py_sum (map cv_compressed_size ?cvs))\<rparr>"
  from e have sel: "?sel \<noteq> []"
    by (auto simp: batch_entries_Nil)
  have p: "compress_pressed enc tmpdir s videos_data w =
             show_videos ?cvs (st_show (Write ''### Compressed Videos'') ?w2)"
    using e by (simp add: compress_pressed_selected [OF sel] show_results_def
        show_totals_shown [OF t])
  from show_videos_extends [of ?cvs "st_show (Write ''### Compressed Videos'') ?w2"]
  obtain more where
    "ui (snd (show_videos ?cvs (st_show (Write ''### Compressed Videos'') ?w2))) =
       ui (st_show (Write ''### Compressed Videos'') ?w2) @ more"
    by blast
  then have "ui (snd (compress_pressed enc tmpdir s videos_data w)) =
       ui w @ batch_errors enc tmpdir s ?sel
         @ totals_shown (py_sum (map cv_original_size ?cvs)) (py_sum (map cv_compressed_size ?cvs))
         @ (Write ''### Compressed Videos'' # more)"
    unfolding p by (simp add: st_show_def after_batch_def)
  then show ?thesis
    by blast
qed

section \<open>Roundings of the sample data\<close>

lemma fl_3: "fl (3) = 3"
  by (rule fl_eqI [where k = 51 and m = 6755399441055744]) (simp_all add: round_half_even_def)

lemma fl_10: "fl (10) = 10"
  by (rule fl_eqI [where k = 49 and m = 5629499534213120]) (simp_all add: round_half_even_def)

lemma fl_24: "fl (24) = 24"
  by (rule fl_eqI [where k = 48 and m = 6755399441055744]) (simp_all add: round_half_even_def)

lemma fl_60: "fl (60) = 60"
  by (rule fl_eqI [where k = 47 and m = 8444249301319680]) (simp_all add: round_half_even_def)

lemma fl_70: "fl (70) = 70"
  by (rule fl_eqI [where k = 46 and m = 4925812092436480]) (simp_all add: round_half_even_def)

lemma fl_125000: "fl (125000) = 125000"
  by (rule fl_eqI [where k = 36 and m = 8589934592000000]) (simp_all add: round_half_even_def)

lemma fl_10000000: "fl (10000000) = 10000000"
  by (rule fl_eqI [where k = 29 and m = 5368709120000000]) (simp_all add: round_half_even_def)

lemma fl_4_9: "fl (4 / 9) = 2001599834386887 / 4503599627370496"
  by (rule fl_eqI [where k = 54 and m = 8006399337547548]) (simp_all add: round_half_even_def)

lemma fl_4_5: "fl (4 / 5) = 3602879701896397 / 4503599627370496"
  by (rule fl_eqI [where k = 53 and m = 7205759403792794]) (simp_all add: round_half_even_def)

lemma fl_17_20: "fl (17 / 20) = 7656119366529843 / 9007199254740992"
  by (rule fl_eqI [where k = 53 and m = 7656119366529843]) (simp_all add: round_half_even_def)

lemma est10_b: "fl (125000 * 10) = 1250000"
  by (rule fl_eqI [where k = 32 and m = 5368709120000000]) (simp_all add: round_half_even_def)

lemma est10_c: "fl (1250000 * (2001599834386887 / 4503599627370496)) = 1193046471111111 / 2147483648"
  by (rule fl_eqI [where k = 33 and m = 4772185884444444]) (simp_all add: round_half_even_def)

lemma est10_d: "fl (1193046471111111 / 2147483648 * (3602879701896397 / 4503599627370496)) = 7635497415111111 / 17179869184"
  by (rule fl_eqI [where k = 34 and m = 7635497415111111]) (simp_all add: round_half_even_def)

lemma est10_e: "fl (7635497415111111 / 17179869184 * (7656119366529843 / 9007199254740992)) = 1622543200711111 / 4294967296"
  by (rule fl_eqI [where k = 34 and m = 6490172802844444]) (simp_all add: round_half_even_def)

lemma est10_mb: "fl (1622543200711111 / 4294967296 / (1024 * 1024)) = 1622543200711111 / 4503599627370496"
  by (rule fl_eqI [where k = 54 and m = 6490172802844444]) (simp_all add: round_half_even_def)







lemma fl_5_times_2: "fl (5 * 2) = 10"
  by (rule fl_eqI [where k = 49 and m = 5629499534213120]) (simp_all add: round_half_even_def)

lemma red_q: "fl (3 / 10) = 5404319552844595 / 18014398509481984"
  by (rule fl_eqI [where k = 54 and m = 5404319552844595]) (simp_all add: round_half_even_def)

lemma red_t: "fl (1 - 5404319552844595 / 18014398509481984) = 3152519739159347 / 4503599627370496"
  by (rule fl_eqI [where k = 53 and m = 6305039478318694]) (simp_all add: round_half_even_def)

lemma red_r: "fl ((3152519739159347 / 4503599627370496) * 100) = 70"
  by (rule fl_eqI [where k = 46 and m = 4925812092436480]) (simp_all add: round_half_even_def)

lemma fl_half: "fl (1 / 2) = 1 / 2"
  by (rule fl_eqI [where k = 53 and m = 4503599627370496]) (simp_all add: round_half_even_def)

lemma fl_5: "fl (5) = 5"
  by (rule fl_eqI [where k = 50 and m = 5629499534213120]) (simp_all add: round_half_even_def)

lemma fl_8: "fl (8) = 8"
  by (rule fl_eqI [where k = 49 and m = 4503599627370496]) (simp_all add: round_half_even_def)

lemma fl_40: "fl (40) = 40"
  by (rule fl_eqI [where k = 47 and m = 5629499534213120]) (simp_all add: round_half_even_def)

lemma fl_50: "fl (50) = 50"
  by (rule fl_eqI [where k = 47 and m = 7036874417766400]) (simp_all add: round_half_even_def)

lemma fl_1250000: "fl (1250000) = 1250000"
  by (rule fl_eqI [where k = 32 and m = 5368709120000000]) (simp_all add: round_half_even_def)





lemma red2_q: "fl (8 / 50) = 5764607523034235 / 36028797018963968"
  by (rule fl_eqI [where k = 55 and m = 5764607523034235]) (simp_all add: round_half_even_def)

lemma red2_t: "fl (1 - 5764607523034235 / 36028797018963968) = 7566047373982433 / 9007199254740992"
  by (rule fl_eqI [where k = 53 and m = 7566047373982433]) (simp_all add: round_half_even_def)

lemma red2_r: "fl ((7566047373982433 / 9007199254740992) * 100) = 84"
  by (rule fl_eqI [where k = 46 and m = 5910974510923776]) (simp_all add: round_half_even_def)

section \<open>The sample data, evaluated\<close>

lemma target_1280: "target_size ''1280x720'' = Inr (1280, 720)"
  by (simp add: target_size_def bind_exn_def py_int_digits is_digit_def dec_val_def digit_val_def)

lemma py_int_24: "py_int ''24'' = Inr 24"
  by (simp add: py_int_digits is_digit_def dec_val_def digit_val_def)

lemma py_int_30: "py_int ''30'' = Inr 30"
  by (simp add: py_int_digits is_digit_def dec_val_def digit_val_def)

lemma py_int_bit_rate: "py_int ''8000000'' = Inr 8000000"
  by (simp add: py_int_digits is_digit_def dec_val_def digit_val_def)

lemma py_float_duration: "py_float ''10.000000'' = Inr 10"
  by (simp add: py_float_def py_strip_def is_space_def split_sign_def is_digit_def
      dec_val_def digit_val_def fl_10)

lemma py_float_size: "py_float ''10000000'' = Inr 10000000"
  by (simp add: py_float_def py_strip_def is_space_def split_sign_def is_digit_def
      dec_val_def digit_val_def fl_10000000)

lemma py_eval_60: "py_eval ''60/1'' = Inr (PyFloat 60)"
  by (simp add: py_eval_def int_literal_def is_digit_def dec_val_def digit_val_def fl_60)

lemma video_info_of_clip60: "video_info_of clip60 = Inr clip60_info"
  by (simp add: video_info_of_def clip60_def clip60_info_def bind_exn_def dict_get_def
      int_of_json_def float_of_json_def py_float_duration py_float_size py_int_bit_rate)

lemma bitrate_1000k: "bitrate_value ''1000k'' = Inr 1000000"
  by (simp add: bitrate_value_def py_replace_def py_int_digits is_digit_def dec_val_def digit_val_def)

lemma resolution_factor_spec_clip:
  "resolution_factor spec_clip ''1280x720'' = Inr (2001599834386887 / 4503599627370496)"
  by (simp add: resolution_factor_def bind_exn_def target_1280 spec_clip_def fl_4_9)

lemma original_fps_spec_clip: "original_fps spec_clip = PyFloat 30"
  by (simp add: original_fps_def spec_clip_def py_eval_default)

lemma fps_factor_spec_clip:
  "fps_factor spec_clip ''24'' = Inr (3602879701896397 / 4503599627370496)"
  by (simp add: fps_factor_def bind_exn_def original_fps_spec_clip py_int_24 int_truediv_def
      fl_24 fl_4_5)

lemma audio_factor_spec_clip:
  "audio_factor spec_clip True = 7656119366529843 / 9007199254740992"
  by (simp add: audio_factor_def spec_clip_def fl_17_20)

text \<open>
  The estimate of the worked example, and the estimate of the same clip cut to two
  seconds: the values double arithmetic gives, about 0.3602769639756944 and
  0.0720553927951389.
\<close>

lemma estimate_spec_clip:
  "estimate_size (Some spec_clip) ''1280x720'' True ''24'' ''1000k'' =
     Inr (Some (1622543200711111 / 4503599627370496))"
proof -
  have d: "vi_duration spec_clip = 10"
    by (simp add: spec_clip_def)
  have b: "fl (real_of_int 1000000 / 8) = 125000"
    by (simp add: fl_125000)
  show ?thesis
    by (simp only: estimate_size_cases bitrate_1000k resolution_factor_spec_clip
        fps_factor_spec_clip audio_factor_spec_clip sum.case d b
        est10_b est10_c est10_d est10_e est10_mb)
qed


lemma command_default:
  "encode_command i out ''1280x720'' True ''24'' ''1000k'' ''ffmpeg'' =
     Inr \<lparr>cmd_program = ''ffmpeg'', cmd_input = i, cmd_scale = Some (1280, 720),
          cmd_fps = Some 24, cmd_audio = False, cmd_video_bitrate = ''1000k'',
          cmd_codec = ''libx264'', cmd_output = out, cmd_overwrite = True\<rparr>"
  by (simp add: encode_command_def bind_exn_def target_1280 py_int_24)

lemma item_command_default:
  "item_command tmpdir default_settings v =
     Inr \<lparr>cmd_program = ''ffmpeg'', cmd_input = vd_path v, cmd_scale = Some (1280, 720),
          cmd_fps = Some 24, cmd_audio = False, cmd_video_bitrate = ''1000k'',
          cmd_codec = ''libx264'', cmd_output = output_path_of tmpdir v, cmd_overwrite = True\<rparr>"
  by (simp add: item_command_def default_settings_def command_default)

lemma outcome_A: "encode_outcome encoder_A_only ''/tmp'' default_settings item_A = Some blob_A"
  by (simp add: encode_outcome_def item_command_default encoder_A_only_def item_A_def)

lemma outcome_B: "encode_outcome encoder_A_only ''/tmp'' default_settings item_B = None"
  by (simp add: encode_outcome_def item_command_default encoder_A_only_def item_B_def)

lemma written_A: "item_written encoder_A_only ''/tmp'' default_settings item_A = Some blob_A"
  by (simp add: item_written_def item_command_default encoder_A_only_def item_A_def)

lemma written_B: "item_written encoder_A_only ''/tmp'' default_settings item_B = None"
  by (simp add: item_written_def item_command_default encoder_A_only_def item_B_def)

lemma failure_A: "item_failure encoder_A_only ''/tmp'' default_settings item_A = None"
  by (simp add: item_failure_def item_command_default encoder_A_only_def item_A_def)

lemma failure_B:
  "item_failure encoder_A_only ''/tmp'' default_settings item_B =
     Some (Error ''Error compressing video: '' FfmpegError)"
  by (simp add: item_failure_def item_command_default encoder_A_only_def item_B_def)

lemma outcome_both_A: "encode_outcome encoder_both_A ''/tmp'' default_settings item_A = Some blob_A"
  by (simp add: encode_outcome_def item_command_default encoder_both_A_def item_A_def)

lemma outcome_both_A2: "encode_outcome encoder_both_A ''/tmp'' default_settings item_A2 = Some blob_A2"
  by (simp add: encode_outcome_def item_command_default encoder_both_A_def item_A2_def)

lemma path_A: "output_path_of ''/tmp'' item_A = ''/tmp/compressed_a.mp4''"
  by (simp add: output_path_of_def path_join_def item_A_def)

lemma path_A2: "output_path_of ''/tmp'' item_A2 = ''/tmp/compressed_a.mp4''"
  by (simp add: output_path_of_def path_join_def item_A2_def)

lemma path_B: "output_path_of ''/tmp'' item_B = ''/tmp/compressed_b.mp4''"
  by (simp add: output_path_of_def path_join_def item_B_def)

lemma entry_A:
  "success_entry ''/tmp'' item_A blob_A =
     \<lparr>cv_name = ''a.mp4'', cv_output_path = ''/tmp/compressed_a.mp4'',
      cv_original_size = 10, cv_compressed_size = 3\<rparr>"
  by (simp add: success_entry_def path_A) (simp add: item_A_def blob_A_def fl_3)

lemma py_sum_10: "py_sum [10] = 10"
  by (simp add: py_sum_def fl_10)

lemma py_sum_3: "py_sum [3] = 3"
  by (simp add: py_sum_def fl_3)

lemma reduction_3_10: "reduction 3 10 = Inr 70"
proof -
  have "reduction 3 10 = Inr (fl (fl (1 - fl (3 / 10)) * 100))"
    by (simp add: reduction_def)
  also have "\<dots> = Inr 70"
    by (simp only: red_q red_t red_r)
  finally show ?thesis .
qed

lemma totals_shown_10_3:
  "totals_shown 10 3 =
     [Subheader ''Compression Results'',
      Metric ''Total Original Size'' 10,
      Metric ''Total Compressed Size'' 3,
      Metric ''Total Reduction'' 70]"
  by (simp only: totals_shown_def red_q red_t red_r)

text \<open>The batch of item A followed by item B: its results, and the state it leaves.\<close>

lemma entries_A_B:
  "batch_entries encoder_A_only ''/tmp'' default_settings [item_A, item_B] =
     [\<lparr>cv_name = ''a.mp4'', cv_output_path = ''/tmp/compressed_a.mp4'',
       cv_original_size = 10, cv_compressed_size = 3\<rparr>]"
  by (simp add: batch_entries_Cons batch_entries_Nil outcome_A outcome_B entry_A)

lemma after_A_B:
  "after_batch encoder_A_only ''/tmp'' default_settings [item_A, item_B] empty_world =
     \<lparr>files = [''/tmp/compressed_a.mp4'' \<mapsto> blob_A],
      encodes =
        [\<lparr>cmd_program = ''ffmpeg'', cmd_input = ''/tmp/tmpa.mp4'', cmd_scale = Some (1280, 720),
          cmd_fps = Some 24, cmd_audio = False, cmd_video_bitrate = ''1000k'',
          cmd_codec = ''libx264'', cmd_output = ''/tmp/compressed_a.mp4'', cmd_overwrite = True\<rparr>,
         \<lparr>cmd_program = ''ffmpeg'', cmd_input = ''/tmp/tmpb.mp4'', cmd_scale = Some (1280, 720),
          cmd_fps = Some 24, cmd_audio = False, cmd_video_bitrate = ''1000k'',
          cmd_codec = ''libx264'', cmd_output = ''/tmp/compressed_b.mp4'', cmd_overwrite = True\<rparr>],
      ui = [Error ''Error compressing video: '' FfmpegError]\<rparr>"
  by (simp add: after_batch_def batch_files_def batch_commands_def batch_errors_def
      List.map_filter_simps written_A written_B failure_A failure_B item_command_default
      path_A path_B empty_world_def)
    (simp add: item_A_def item_B_def)

lemma outcome_both_B: "encode_outcome encoder_both_A ''/tmp'' default_settings item_B = None"
  by (simp add: encode_outcome_def item_command_default encoder_both_A_def item_B_def)

lemma failure_both_A: "item_failure encoder_both_A ''/tmp'' default_settings item_A = None"
  by (simp add: item_failure_def item_command_default encoder_both_A_def item_A_def)

lemma failure_both_A2: "item_failure encoder_both_A ''/tmp'' default_settings item_A2 = None"
  by (simp add: item_failure_def item_command_default encoder_both_A_def item_A2_def)

lemma failure_both_B:
  "item_failure encoder_both_A ''/tmp'' default_settings item_B =
     Some (Error ''Error compressing video: '' FfmpegError)"
  by (simp add: item_failure_def item_command_default encoder_both_A_def item_B_def)

lemma errors_A_B:
  "batch_errors encoder_A_only ''/tmp'' default_settings [item_A, item_B] =
     [Error ''Error compressing video: '' FfmpegError]"
  by (simp add: batch_errors_def List.map_filter_simps failure_A failure_B)

lemma errors_A_B_A2:
  "batch_errors encoder_both_A ''/tmp'' default_settings [item_A, item_B, item_A2] =
     [Error ''Error compressing video: '' FfmpegError]"
  by (simp add: batch_errors_def List.map_filter_simps failure_both_A failure_both_A2 failure_both_B)

lemma after_B:
  "after_batch encoder_A_only ''/tmp'' default_settings [item_B] empty_world =
     \<lparr>files = Map.empty,
      encodes =
        [\<lparr>cmd_program = ''ffmpeg'', cmd_input = ''/tmp/tmpb.mp4'', cmd_scale = Some (1280, 720),
          cmd_fps = Some 24, cmd_audio = False, cmd_video_bitrate = ''1000k'',
          cmd_codec = ''libx264'', cmd_output = ''/tmp/compressed_b.mp4'', cmd_overwrite = True\<rparr>],
      ui = [Error ''Error compressing video: '' FfmpegError]\<rparr>"
  by (simp add: after_batch_def batch_files_def batch_commands_def batch_errors_def
      List.map_filter_simps written_B failure_B item_command_default path_B empty_world_def)
    (simp add: item_B_def)

lemma entries_B: "batch_entries encoder_A_only ''/tmp'' default_settings [item_B] = []"
  by (simp add: batch_entries_Cons batch_entries_Nil outcome_B)

lemma selected_A_B:
  "filter vd_selected_for_compression
     (map snd [(''video_0_a.mp4'', item_A), (''video_1_b.mp4'', item_B)]) = [item_A, item_B]"
  by (simp add: item_A_def item_B_def)

lemma selected_B:
  "filter vd_selected_for_compression (map snd [(''video_0_b.mp4'', item_B)]) = [item_B]"
  by (simp add: item_B_def)

lemma selected_A_B_A2:
  "filter vd_selected_for_compression
     (map snd [(''video_0_a.mp4'', item_A), (''video_1_b.mp4'', item_B), (''video_2_a.mp4'', item_A2)])
     = [item_A, item_B, item_A2]"
  by (simp add: item_A_def item_B_def item_A2_def)

lemma succeeded_A_B_A2:
  "filter (\<lambda>v. encode_outcome encoder_both_A ''/tmp'' default_settings v \<noteq> None)
     [item_A, item_B, item_A2] = [item_A, item_A2]"
  by (simp add: outcome_both_A outcome_both_B outcome_both_A2)

lemma py_sum_10_40: "py_sum [10, 40] = 50"
  by (simp add: py_sum_def fl_10 fl_50)

lemma py_sum_3_5: "py_sum [3, 5] = 8"
  by (simp add: py_sum_def fl_3 fl_8)

lemma reduction_8_50: "fl (fl (1 - fl (8 / 50)) * 100) = 84"
  by (simp only: red2_q red2_t red2_r)

text \<open>The page after the press of the button on the batch of item A and item B.\<close>

lemma pressed_A_B:
  "compress_pressed encoder_A_only ''/tmp'' default_settings
     [(''video_0_a.mp4'', item_A), (''video_1_b.mp4'', item_B)] empty_world =
   (None,
    \<lparr>files = [''/tmp/compressed_a.mp4'' \<mapsto> blob_A],
     encodes =
       [\<lparr>cmd_program = ''ffmpeg'', cmd_input = ''/tmp/tmpa.mp4'', cmd_scale = Some (1280, 720),
         cmd_fps = Some 24, cmd_audio = False, cmd_video_bitrate = ''1000k'',
         cmd_codec = ''libx264'', cmd_output = ''/tmp/compressed_a.mp4'', cmd_overwrite = True\<rparr>,
        \<lparr>cmd_program = ''ffmpeg'', cmd_input = ''/tmp/tmpb.mp4'', cmd_scale = Some (1280, 720),
         cmd_fps = Some 24, cmd_audio = False, cmd_video_bitrate = ''1000k'',
         cmd_codec = ''libx264'', cmd_output = ''/tmp/compressed_b.mp4'', cmd_overwrite = True\<rparr>],
     ui =
       [Error ''Error compressing video: '' FfmpegError,
        Subheader ''Compression Results'',
        Metric ''Total Original Size'' 10,
        Metric ''Total Compressed Size'' 3,
        Metric ''Total Reduction'' 70,
        Write ''### Compressed Videos'',
        Write ''**a.mp4**'',
        Metric ''Size Reduction'' 70,
        Video blob_A,
        DownloadButton ''compressed_a.mp4'' blob_A]\<rparr>)"
proof -
  have sel: "filter vd_selected_for_compression
      (map snd [(''video_0_a.mp4'', item_A), (''video_1_b.mp4'', item_B)]) \<noteq> []"
    unfolding selected_A_B by simp
  show ?thesis
    unfolding compress_pressed_selected [OF sel] selected_A_B entries_A_B after_A_B
    by (simp add: show_results_def show_totals_def py_sum_10 py_sum_3 reduction_3_10
        st_show_def Let_def)
qed

section \<open>Claims\<close>

text \<open>
  C1. The claim: with a target rate other than \<open>original\<close>, the fps factor is the target
  rate divided by the frame rate the probe found, and by 30 only when that rate cannot
  be parsed. The code does not do this: the dictionary built by \<^verbatim>\<open>get_video_info\<close> has
  no key \<open>r_frame_rate\<close>, so on every metadata that comes from the probe the estimator
  divides the target rate by 30, whatever the rate of the clip.
\<close>

theorem fps_factor_of_probed_metadata:
  "get_video_info ffprobe input_file w = (Some info, w') \<Longrightarrow> fps \<noteq> ''original'' \<Longrightarrow>
   vi_r_frame_rate info = None
   \<and> fps_factor info fps =
       bind_exn (py_int fps) (\<lambda>target_fps. Inr (fl (fl (real_of_int target_fps) / 30)))"
proof -
  assume g: "get_video_info ffprobe input_file w = (Some info, w')" and f: "fps \<noteq> ''original''"
  from get_video_info_Some [OF g] obtain p where "video_info_of p = Inr info"
    by blast
  then have "vi_r_frame_rate info = None"
    by (rule video_info_of_no_rate)
  with f show ?thesis
    by (simp add: fps_factor_def original_fps_default int_truediv_def)
qed

text \<open>
  At the clip of 60 frames per second and the target rate 30, the factor is 1, where the
  rate of the clip evaluates to 60 and the claim asks for 30 / 60, which is 1 / 2.
\<close>

theorem fps_factor_of_probed_metadata_witness:
  "get_video_info (\<lambda>path. Inr clip60) ''/tmp/tmpa.mp4'' empty_world = (Some clip60_info, empty_world)
   \<and> ''30'' \<noteq> ''original''
   \<and> fps_factor clip60_info ''30'' = Inr 1
   \<and> py_eval ''60/1'' = Inr (PyFloat 60)
   \<and> int_truediv 30 (PyFloat 60) = Inr (1 / 2)"
proof -
  have g: "get_video_info (\<lambda>path. Inr clip60) ''/tmp/tmpa.mp4'' empty_world =
             (Some clip60_info, empty_world)"
    by (simp add: get_video_info_def bind_exn_def video_info_of_clip60)
  from fps_factor_of_probed_metadata [OF g, of "''30''"]
  have "fps_factor clip60_info ''30'' = Inr 1"
    by (simp add: bind_exn_def py_int_30 fl_30 fl_1)
  moreover have "int_truediv 30 (PyFloat 60) = Inr (1 / 2)"
    by (simp add: int_truediv_def fl_30 fl_half)
  ultimately show ?thesis
    using g by (simp add: py_eval_60)
qed

text \<open>
  C2, as amended. When the bitrate, the resolution and the rate are well formed, the
  estimator returns the product (bitrate / 8) * duration * resolution factor * fps factor
  * audio factor divided by 1024 * 1024, each operation rounded as floats are: the
  estimate is a number of MB, not of bytes.
\<close>

theorem estimate_size_in_megabytes:
  "bitrate_value bitrate = Inr bv \<Longrightarrow> resolution_factor info resolution = Inr rf \<Longrightarrow>
   fps_factor info fps = Inr ff \<Longrightarrow>
   estimate_size (Some info) resolution remove_audio fps bitrate =
     Inr (Some (fl (fl (fl (fl (fl (fl (real_of_int bv / 8) * vi_duration info) * rf) * ff)
                          * audio_factor info remove_audio)
                    / (1024 * 1024))))"
  by (simp add: estimate_size_cases)

theorem estimate_size_in_megabytes_witness:
  "bitrate_value ''1000k'' = Inr 1000000
   \<and> resolution_factor spec_clip ''1280x720'' = Inr (2001599834386887 / 4503599627370496)
   \<and> fps_factor spec_clip ''24'' = Inr (3602879701896397 / 4503599627370496)
   \<and> estimate_size (Some spec_clip) ''1280x720'' True ''24'' ''1000k'' =
       Inr (Some (1622543200711111 / 4503599627370496))"
proof -
  have d: "vi_duration spec_clip = 10"
    by (simp add: spec_clip_def)
  have b: "fl (real_of_int 1000000 / 8) = 125000"
    by (simp add: fl_125000)
  have "estimate_size (Some spec_clip) ''1280x720'' True ''24'' ''1000k'' =
       Inr (Some (1622543200711111 / 4503599627370496))"
    using estimate_size_in_megabytes [OF bitrate_1000k resolution_factor_spec_clip
        fps_factor_spec_clip, of True]
    by (simp only: audio_factor_spec_clip d b est10_b est10_c est10_d est10_e est10_mb)
  with bitrate_1000k resolution_factor_spec_clip fps_factor_spec_clip show ?thesis
    by (intro conjI)
qed

text \<open>
  The claim as written fails on the worked example of the specification: the product in
  bytes is about 377778, whether it is taken exactly or in floats, and the estimator
  returns about 0.36.
\<close>

theorem estimate_size_not_in_bytes:
  "estimate_size (Some spec_clip) ''1280x720'' True ''24'' ''1000k'' \<noteq>
     Inr (Some ((1000000 / 8) * 10 * ((1280 * 720) / (1920 * 1080)) * (24 / 30) * (85 / 100)))
   \<and> estimate_size (Some spec_clip) ''1280x720'' True ''24'' ''1000k'' \<noteq>
     Inr (Some (fl (fl (fl (fl (fl (1000000 / 8) * 10) * fl ((1280 * 720) / (1920 * 1080)))
                         * fl (24 / 30)) * fl (85 / 100))))"
proof -
  have a: "fl (1000000 / 8) = 125000" "fl ((1280 * 720) / (1920 * 1080)) = 2001599834386887 / 4503599627370496"
    "fl (24 / 30) = 3602879701896397 / 4503599627370496"
    "fl (85 / 100) = 7656119366529843 / 9007199254740992"
    by (simp_all add: fl_125000 fl_4_9 fl_4_5 fl_17_20)
  have "fl (fl (fl (fl (fl (1000000 / 8) * 10) * fl ((1280 * 720) / (1920 * 1080)))
                         * fl (24 / 30)) * fl (85 / 100)) = 1622543200711111 / 4294967296"
    by (simp only: a est10_b est10_c est10_d est10_e)
  then show ?thesis
    by (simp add: estimate_spec_clip)
qed



text \<open>
  C6. For metadata without audio, the estimate with audio removal equals the estimate
  without it: the audio factor is 1 in both, and 0.85 only when audio is removed from a
  source that has some.
\<close>

theorem no_audio_same_estimate:
  "\<not> vi_has_audio info \<Longrightarrow>
   estimate_size (Some info) resolution True fps bitrate =
     estimate_size (Some info) resolution False fps bitrate
   \<and> audio_factor info True = 1
   \<and> audio_factor info remove_audio = 1"
  by (simp add: estimate_size_def audio_factor_def)

theorem no_audio_same_estimate_witness:
  "\<not> vi_has_audio (spec_clip\<lparr>vi_has_audio := False\<rparr>)
   \<and> estimate_size (Some (spec_clip\<lparr>vi_has_audio := False\<rparr>)) ''1280x720'' True ''24'' ''1000k'' =
       estimate_size (Some (spec_clip\<lparr>vi_has_audio := False\<rparr>)) ''1280x720'' False ''24'' ''1000k''
   \<and> audio_factor (spec_clip\<lparr>vi_has_audio := False\<rparr>) True = 1
   \<and> audio_factor spec_clip True = fl (85 / 100)"
  using no_audio_same_estimate [of "spec_clip\<lparr>vi_has_audio := False\<rparr>" "''1280x720''"
      "''24''" "''1000k''" True]
  by (simp add: audio_factor_def spec_clip_def)




text \<open>
  C7. A bitrate string made of decimal digits followed by the suffix \<open>k\<close> parses to the
  value of the digits multiplied by 1000, where the value of the digits is what
  \<^verbatim>\<open>int()\<close> itself returns on them; the string \<open>1500k\<close> parses to 1500000.
\<close>

theorem bitrate_value_k_suffix:
  "(ds \<noteq> [] \<and> list_all is_digit ds \<longrightarrow>
      py_int ds = Inr (dec_val ds) \<and> bitrate_value (ds @ ''k'') = Inr (dec_val ds * 1000))
   \<and> bitrate_value ''1500k'' = Inr 1500000"
proof -
  have gen: "py_int ds = Inr (dec_val ds) \<and> bitrate_value (ds @ ''k'') = Inr (dec_val ds * 1000)"
    if ne: "ds \<noteq> []" and dg: "list_all is_digit ds" for ds
  proof -
    have rep: "py_replace CHR ''k'' ''000'' (ds @ ''k'') = ds @ ''000''"
      using dg by (simp add: py_replace_append py_replace_absent k_not_digit)
        (simp add: py_replace_def)
    have "list_all is_digit (ds @ ''000'')"
      using dg digits_000 by simp
    then have "py_int (ds @ ''000'') = Inr (dec_val (ds @ ''000''))"
      by (intro py_int_digits) simp_all
    with rep ne dg show ?thesis
      by (simp add: bitrate_value_def dec_val_thousand py_int_digits)
  qed
  have "list_all is_digit ''1500''"
    by (simp add: is_digit_def)
  from gen [OF _ this] have "bitrate_value ''1500k'' = Inr (dec_val ''1500'' * 1000)"
    by simp
  moreover have "dec_val ''1500'' = 1500"
    by (simp add: dec_val_def digit_val_def)
  ultimately show ?thesis
    using gen by simp
qed

theorem bitrate_value_k_suffix_witness:
  "''500'' \<noteq> [] \<and> list_all is_digit ''500'' \<and> py_int ''500'' = Inr 500
   \<and> bitrate_value ''500k'' = Inr 500000"
proof -
  have d: "list_all is_digit ''500''"
    by (simp add: is_digit_def)
  have v: "dec_val ''500'' = 500"
    by (simp add: dec_val_def digit_val_def)
  from bitrate_value_k_suffix [of "''500''"] d v show ?thesis
    by simp
qed

text \<open>
  C3, as amended. The report computes the reduction only when at least one item was
  compressed. When every selected item fails, the press of the button ends without an
  exception in the state the loop left, and the page has gained the messages of the
  failures and nothing else: no figure and no notice. When at least one item was
  compressed and the total original size of the results is not zero, the page shows,
  after the failures, the total original size, the total compressed size and the
  reduction (1 - total compressed / total original) * 100.
\<close>

theorem report_guards_empty_results:
  "sel = filter vd_selected_for_compression (map snd videos_data) \<Longrightarrow>
   cvs = batch_entries enc tmpdir s sel \<Longrightarrow>
   compress_loop enc tmpdir s sel [] w = (Inr cvs, after_batch enc tmpdir s sel w)
   \<and> show_results [] w = (None, w)
   \<and> (sel \<noteq> [] \<and> cvs = [] \<longrightarrow>
        compress_pressed enc tmpdir s videos_data w = (None, after_batch enc tmpdir s sel w)
        \<and> ui (after_batch enc tmpdir s sel w) = ui w @ batch_errors enc tmpdir s sel
        \<and> list_all is_error_event (batch_errors enc tmpdir s sel))
   \<and> (cvs \<noteq> [] \<and> py_sum (map cv_original_size cvs) \<noteq> 0 \<longrightarrow>
        (\<exists>more. ui (snd (compress_pressed enc tmpdir s videos_data w)) =
           ui w @ batch_errors enc tmpdir s sel
           @ [Subheader ''Compression Results'',
              Metric ''Total Original Size'' (py_sum (map cv_original_size cvs)),
              Metric ''Total Compressed Size'' (py_sum (map cv_compressed_size cvs)),
              Metric ''Total Reduction''
                (fl (fl (1 - fl (py_sum (map cv_compressed_size cvs)
                                 / py_sum (map cv_original_size cvs))) * 100))]
           @ more))"
proof (intro conjI impI)
  assume sel: "sel = filter vd_selected_for_compression (map snd videos_data)"
    and cvs: "cvs = batch_entries enc tmpdir s sel"
  show "compress_loop enc tmpdir s sel [] w = (Inr cvs, after_batch enc tmpdir s sel w)"
    by (simp add: compress_loop_total cvs)
  show "show_results [] w = (None, w)"
    by (simp add: show_results_def)
  show "compress_pressed enc tmpdir s videos_data w = (None, after_batch enc tmpdir s sel w)"
    if "sel \<noteq> [] \<and> cvs = []"
  proof -
    from that sel have "filter vd_selected_for_compression (map snd videos_data) \<noteq> []"
      by simp
    from compress_pressed_selected [OF this, of enc tmpdir s w] that show ?thesis
      unfolding sel [symmetric] cvs [symmetric] by (simp add: show_results_def)
  qed
  show "ui (after_batch enc tmpdir s sel w) = ui w @ batch_errors enc tmpdir s sel"
    by (simp add: after_batch_def)
  show "list_all is_error_event (batch_errors enc tmpdir s sel)"
    by (rule batch_errors_are_errors)
  show "\<exists>more. ui (snd (compress_pressed enc tmpdir s videos_data w)) =
           ui w @ batch_errors enc tmpdir s sel
           @ [Subheader ''Compression Results'',
              Metric ''Total Original Size'' (py_sum (map cv_original_size cvs)),
              Metric ''Total Compressed Size'' (py_sum (map cv_compressed_size cvs)),
              Metric ''Total Reduction''
                (fl (fl (1 - fl (py_sum (map cv_compressed_size cvs)
                                 / py_sum (map cv_original_size cvs))) * 100))]
           @ more"
    if "cvs \<noteq> [] \<and> py_sum (map cv_original_size cvs) \<noteq> 0"
    using that compress_pressed_totals [of enc tmpdir s videos_data w]
    unfolding sel [symmetric] cvs [symmetric] totals_shown_def by simp
qed

text \<open>
  When item B alone is selected and fails, the page holds its failure only; when item A
  is compressed before it, the totals follow the failure.
\<close>

theorem report_guards_empty_results_witness:
  "[item_B] \<noteq> [] \<and> batch_entries encoder_A_only ''/tmp'' default_settings [item_B] = []
   \<and> fst (compress_pressed encoder_A_only ''/tmp'' default_settings
             [(''video_0_b.mp4'', item_B)] empty_world) = None
   \<and> ui (snd (compress_pressed encoder_A_only ''/tmp'' default_settings
             [(''video_0_b.mp4'', item_B)] empty_world)) =
       [Error ''Error compressing video: '' FfmpegError]
   \<and> (\<exists>more. ui (snd (compress_pressed encoder_A_only ''/tmp'' default_settings
             [(''video_0_a.mp4'', item_A), (''video_1_b.mp4'', item_B)] empty_world)) =
         [Error ''Error compressing video: '' FfmpegError,
          Subheader ''Compression Results'',
          Metric ''Total Original Size'' 10,
          Metric ''Total Compressed Size'' 3,
          Metric ''Total Reduction'' 70] @ more)"
proof -
  note b = report_guards_empty_results
    [where videos_data = "[(''video_0_b.mp4'', item_B)]" and sel = "[item_B]" and cvs = "[]"
      and enc = encoder_A_only and tmpdir = "''/tmp''" and s = default_settings
      and w = empty_world, OF selected_B [symmetric] entries_B [symmetric]]
  then have "compress_pressed encoder_A_only ''/tmp'' default_settings
               [(''video_0_b.mp4'', item_B)] empty_world =
             (None, after_batch encoder_A_only ''/tmp'' default_settings [item_B] empty_world)"
    by simp
  then have one: "fst (compress_pressed encoder_A_only ''/tmp'' default_settings
             [(''video_0_b.mp4'', item_B)] empty_world) = None"
    "ui (snd (compress_pressed encoder_A_only ''/tmp'' default_settings
             [(''video_0_b.mp4'', item_B)] empty_world)) =
       [Error ''Error compressing video: '' FfmpegError]"
    by (simp_all add: after_B)
  note a = report_guards_empty_results
    [where videos_data = "[(''video_0_a.mp4'', item_A), (''video_1_b.mp4'', item_B)]"
      and sel = "[item_A, item_B]"
      and cvs = "[\<lparr>cv_name = ''a.mp4'', cv_output_path = ''/tmp/compressed_a.mp4'',
                    cv_original_size = 10, cv_compressed_size = 3\<rparr>]"
      and enc = encoder_A_only and tmpdir = "''/tmp''" and s = default_settings
      and w = empty_world, OF selected_A_B [symmetric] entries_A_B [symmetric]]
  have r: "fl (fl (1 - fl (3 / 10)) * 100) = (70::real)"
    by (simp only: red_q red_t red_r)
  have "\<exists>more. ui (snd (compress_pressed encoder_A_only ''/tmp'' default_settings
             [(''video_0_a.mp4'', item_A), (''video_1_b.mp4'', item_B)] empty_world)) =
         [Error ''Error compressing video: '' FfmpegError,
          Subheader ''Compression Results'',
          Metric ''Total Original Size'' 10,
          Metric ''Total Compressed Size'' 3,
          Metric ''Total Reduction'' 70] @ more"
    using a [THEN conjunct2, THEN conjunct2, THEN conjunct2]
    by (simp add: py_sum_10 py_sum_3 r errors_A_B empty_world_def)
  with one entries_B show ?thesis
    by simp
qed

text \<open>
  The claim as written fails when no item is compressed: the report shows nothing, so
  the reduction is not reported as not applicable. With item B alone, which fails, the
  press of the button leaves on the page the message of the failure and nothing else.
\<close>

theorem report_without_notice:
  "compress_pressed encoder_A_only ''/tmp'' default_settings
     [(''video_0_b.mp4'', item_B)] empty_world =
   (None,
    \<lparr>files = Map.empty,
     encodes =
       [\<lparr>cmd_program = ''ffmpeg'', cmd_input = ''/tmp/tmpb.mp4'', cmd_scale = Some (1280, 720),
         cmd_fps = Some 24, cmd_audio = False, cmd_video_bitrate = ''1000k'',
         cmd_codec = ''libx264'', cmd_output = ''/tmp/compressed_b.mp4'', cmd_overwrite = True\<rparr>],
     ui = [Error ''Error compressing video: '' FfmpegError]\<rparr>)"
proof -
  have sel: "filter vd_selected_for_compression (map snd [(''video_0_b.mp4'', item_B)]) \<noteq> []"
    unfolding selected_B by simp
  show ?thesis
    unfolding compress_pressed_selected [OF sel] selected_B entries_B after_B
    by (simp add: show_results_def)
qed

text \<open>
  C4. A failure does not stop the batch: for every batch the loop returns, every item
  is handed to the encoder in upload order, and the results are the entries of exactly
  the items whose compression succeeded. The totals of the report are the sums over
  those items only: when some item succeeded and the sum of their original sizes is not
  zero, the page shows, after the failures, that sum, the sum of their compressed sizes
  and the reduction computed from the two. In the batch of item A (10 MB, compressed to
  3 MB) followed by item B, whose compression fails, the page shows the failure of B, a
  total original size of 10, a total compressed size of 3 and a reduction of 70.
\<close>

theorem batch_survives_failure:
  "sel = filter vd_selected_for_compression (map snd videos_data) \<Longrightarrow>
   ok = filter (\<lambda>v. encode_outcome enc tmpdir s v \<noteq> None) sel \<Longrightarrow>
   total_original = py_sum (map vd_original_size ok) \<Longrightarrow>
   total_compressed =
     py_sum (map (\<lambda>v. fl (real (nbytes (the (encode_outcome enc tmpdir s v))) / (1024 * 1024))) ok) \<Longrightarrow>
   compress_loop enc tmpdir s sel [] w =
     (Inr (map (\<lambda>v. success_entry tmpdir v (the (encode_outcome enc tmpdir s v))) ok),
      after_batch enc tmpdir s sel w)
   \<and> encodes (after_batch enc tmpdir s sel w) = encodes w @ batch_commands tmpdir s sel
   \<and> (ok \<noteq> [] \<and> total_original \<noteq> 0 \<longrightarrow>
        (\<exists>more. ui (snd (compress_pressed enc tmpdir s videos_data w)) =
           ui w @ batch_errors enc tmpdir s sel
           @ [Subheader ''Compression Results'',
              Metric ''Total Original Size'' total_original,
              Metric ''Total Compressed Size'' total_compressed,
              Metric ''Total Reduction'' (fl (fl (1 - fl (total_compressed / total_original)) * 100))]
           @ more))
   \<and> fst (compress_pressed encoder_A_only ''/tmp'' default_settings
             [(''video_0_a.mp4'', item_A), (''video_1_b.mp4'', item_B)] empty_world) = None
   \<and> ui (snd (compress_pressed encoder_A_only ''/tmp'' default_settings
             [(''video_0_a.mp4'', item_A), (''video_1_b.mp4'', item_B)] empty_world)) =
       [Error ''Error compressing video: '' FfmpegError,
        Subheader ''Compression Results'',
        Metric ''Total Original Size'' 10,
        Metric ''Total Compressed Size'' 3,
        Metric ''Total Reduction'' 70,
        Write ''### Compressed Videos'',
        Write ''**a.mp4**'',
        Metric ''Size Reduction'' 70,
        Video blob_A,
        DownloadButton ''compressed_a.mp4'' blob_A]"
proof (intro conjI impI)
  assume sel: "sel = filter vd_selected_for_compression (map snd videos_data)"
    and ok: "ok = filter (\<lambda>v. encode_outcome enc tmpdir s v \<noteq> None) sel"
    and o: "total_original = py_sum (map vd_original_size ok)"
    and c: "total_compressed =
      py_sum (map (\<lambda>v. fl (real (nbytes (the (encode_outcome enc tmpdir s v))) / (1024 * 1024))) ok)"
  have e: "batch_entries enc tmpdir s sel =
      map (\<lambda>v. success_entry tmpdir v (the (encode_outcome enc tmpdir s v))) ok"
    unfolding ok by (rule batch_entries_filter)
  have eo: "map cv_original_size (batch_entries enc tmpdir s sel) = map vd_original_size ok"
    unfolding ok by (rule batch_entries_originals)
  have ec: "map cv_compressed_size (batch_entries enc tmpdir s sel) =
      map (\<lambda>v. fl (real (nbytes (the (encode_outcome enc tmpdir s v))) / (1024 * 1024))) ok"
    unfolding ok by (rule batch_entries_compressed)
  show "compress_loop enc tmpdir s sel [] w =
     (Inr (map (\<lambda>v. success_entry tmpdir v (the (encode_outcome enc tmpdir s v))) ok),
      after_batch enc tmpdir s sel w)"
    by (simp add: compress_loop_total e)
  show "encodes (after_batch enc tmpdir s sel w) = encodes w @ batch_commands tmpdir s sel"
    by (simp add: after_batch_def)
  show "\<exists>more. ui (snd (compress_pressed enc tmpdir s videos_data w)) =
           ui w @ batch_errors enc tmpdir s sel
           @ [Subheader ''Compression Results'',
              Metric ''Total Original Size'' total_original,
              Metric ''Total Compressed Size'' total_compressed,
              Metric ''Total Reduction'' (fl (fl (1 - fl (total_compressed / total_original)) * 100))]
           @ more"
    if h: "ok \<noteq> [] \<and> total_original \<noteq> 0"
  proof -
    from h e have ne: "batch_entries enc tmpdir s sel \<noteq> []"
      by simp
    from h have nz: "py_sum (map cv_original_size (batch_entries enc tmpdir s sel)) \<noteq> 0"
      unfolding eo o [symmetric] by simp
    from compress_pressed_totals [of enc tmpdir s videos_data w] ne nz show ?thesis
      unfolding sel [symmetric] eo ec o [symmetric] c [symmetric] totals_shown_def by simp
  qed
  show "fst (compress_pressed encoder_A_only ''/tmp'' default_settings
             [(''video_0_a.mp4'', item_A), (''video_1_b.mp4'', item_B)] empty_world) = None"
    by (simp add: pressed_A_B)
  show "ui (snd (compress_pressed encoder_A_only ''/tmp'' default_settings
             [(''video_0_a.mp4'', item_A), (''video_1_b.mp4'', item_B)] empty_world)) =
       [Error ''Error compressing video: '' FfmpegError,
        Subheader ''Compression Results'',
        Metric ''Total Original Size'' 10,
        Metric ''Total Compressed Size'' 3,
        Metric ''Total Reduction'' 70,
        Write ''### Compressed Videos'',
        Write ''**a.mp4**'',
        Metric ''Size Reduction'' 70,
        Video blob_A,
        DownloadButton ''compressed_a.mp4'' blob_A]"
    by (simp add: pressed_A_B)
qed

text \<open>
  A batch of three: item A is compressed to 3 MB, item B fails, and a second upload of
  40 MB is compressed to 5 MB after the failure. The totals are 50 and 8, the sums over
  the two items that succeeded, and the reduction is 84.
\<close>

theorem batch_survives_failure_witness:
  "filter (\<lambda>v. encode_outcome encoder_both_A ''/tmp'' default_settings v \<noteq> None)
     [item_A, item_B, item_A2] = [item_A, item_A2]
   \<and> py_sum (map vd_original_size [item_A, item_A2]) = 50
   \<and> (\<exists>more. ui (snd (compress_pressed encoder_both_A ''/tmp'' default_settings
          [(''video_0_a.mp4'', item_A), (''video_1_b.mp4'', item_B), (''video_2_a.mp4'', item_A2)]
          empty_world)) =
        [Error ''Error compressing video: '' FfmpegError,
         Subheader ''Compression Results'',
         Metric ''Total Original Size'' 50,
         Metric ''Total Compressed Size'' 8,
         Metric ''Total Reduction'' 84] @ more)"
proof -
  have o: "py_sum (map vd_original_size [item_A, item_A2]) = 50"
    by (simp add: item_A_def item_A2_def py_sum_10_40)
  have c: "py_sum (map (\<lambda>v. fl (real (nbytes (the (encode_outcome encoder_both_A ''/tmp''
              default_settings v))) / (1024 * 1024))) [item_A, item_A2]) = 8"
    by (simp add: outcome_both_A outcome_both_A2 blob_A_def blob_A2_def fl_3 fl_5 py_sum_3_5)
  have r: "fl (fl (1 - fl (4 / 25)) * 100) = (84::real)"
    using reduction_8_50 by simp
  note t = batch_survives_failure
    [where videos_data = "[(''video_0_a.mp4'', item_A), (''video_1_b.mp4'', item_B),
        (''video_2_a.mp4'', item_A2)]"
      and sel = "[item_A, item_B, item_A2]" and ok = "[item_A, item_A2]"
      and enc = encoder_both_A and tmpdir = "''/tmp''" and s = default_settings
      and total_original = 50 and total_compressed = 8 and w = empty_world,
      OF selected_A_B_A2 [symmetric] succeeded_A_B_A2 [symmetric] o [symmetric] c [symmetric]]
  from t [THEN conjunct2, THEN conjunct2, THEN conjunct1]
  have "\<exists>more. ui (snd (compress_pressed encoder_both_A ''/tmp'' default_settings
          [(''video_0_a.mp4'', item_A), (''video_1_b.mp4'', item_B), (''video_2_a.mp4'', item_A2)]
          empty_world)) =
        [Error ''Error compressing video: '' FfmpegError,
         Subheader ''Compression Results'',
         Metric ''Total Original Size'' 50,
         Metric ''Total Compressed Size'' 8,
         Metric ''Total Reduction'' 84] @ more"
    by (simp add: errors_A_B_A2 r empty_world_def)
  with o succeeded_A_B_A2 show ?thesis
    by (intro conjI)
qed

text \<open>
  C8. When the button is pressed with no item selected, the page gets the warning and
  nothing else happens: no command is handed to the encoder and no file is written.
\<close>

theorem nothing_selected_warns:
  "list_all (\<lambda>v. \<not> vd_selected_for_compression v) (map snd videos_data) \<Longrightarrow>
   (\<exists>w'. compress_pressed enc tmpdir s videos_data w = (None, w')
      \<and> ui w' = ui w @ [Warning ''Please select at least one video to compress.'']
      \<and> encodes w' = encodes w \<and> files w' = files w)"
proof -
  assume "list_all (\<lambda>v. \<not> vd_selected_for_compression v) (map snd videos_data)"
  then have "filter vd_selected_for_compression (map snd videos_data) = []"
    by (simp add: list_all_iff filter_empty_conv)
  then show ?thesis
    by (simp add: compress_pressed_def st_show_def)
qed

theorem nothing_selected_warns_witness:
  "list_all (\<lambda>v. \<not> vd_selected_for_compression v)
     (map snd [(''video_0_a.mp4'', item_A\<lparr>vd_selected_for_compression := False\<rparr>)])
   \<and> (\<exists>w'. compress_pressed encoder_both_A ''/tmp'' default_settings
              [(''video_0_a.mp4'', item_A\<lparr>vd_selected_for_compression := False\<rparr>)] empty_world
              = (None, w')
        \<and> ui w' = [Warning ''Please select at least one video to compress.'']
        \<and> encodes w' = [] \<and> files w' = Map.empty)"
  using nothing_selected_warns
    [of "[(''video_0_a.mp4'', item_A\<lparr>vd_selected_for_compression := False\<rparr>)]"
      encoder_both_A "''/tmp''" default_settings empty_world]
  by (simp add: empty_world_def)

text \<open>
  C9. The output path of an item is the directory of temporary files joined with
  \<open>compressed_\<close> and the display name, and nothing else of the item enters it. Two
  items of one name have one output path, and when both are compressed in one batch the
  later one replaces the file of the earlier one. The run of the batch passes through
  the state in which the loop has reached item \<open>a\<close>: there the path holds the output
  of \<open>a\<close>. It continues from that state, hands to the encoder the command of \<open>b\<close>,
  which names the same path and carries the overwrite flag, and ends with the output of
  \<open>b\<close> at the path, while the results list both items under that one path.
\<close>

theorem same_name_same_output_path:
  "output_path_of tmpdir a = path_join tmpdir (''compressed_'' @ vd_name a)
   \<and> (vd_name a = vd_name b \<longrightarrow> output_path_of tmpdir a = output_path_of tmpdir b)
   \<and> (vd_name a = vd_name b \<and> encode_outcome enc tmpdir s a = Some fa
        \<and> encode_outcome enc tmpdir s b = Some fb \<longrightarrow>
       (\<exists>cvs1 w1 cvs2 w2 ca cb.
          compress_loop enc tmpdir s (pre @ [a]) [] w = (Inr cvs1, w1)
          \<and> files w1 (output_path_of tmpdir a) = Some fa
          \<and> compress_loop enc tmpdir s (mid @ [b]) cvs1 w1 = (Inr cvs2, w2)
          \<and> compress_loop enc tmpdir s (pre @ a # mid @ [b]) [] w = (Inr cvs2, w2)
          \<and> files w2 (output_path_of tmpdir a) = Some fb
          \<and> item_command tmpdir s a = Inr ca \<and> item_command tmpdir s b = Inr cb
          \<and> cmd_output ca = output_path_of tmpdir a \<and> cmd_output cb = output_path_of tmpdir a
          \<and> cmd_overwrite cb
          \<and> encodes w2 = encodes w @ batch_commands tmpdir s pre @ [ca]
                           @ batch_commands tmpdir s mid @ [cb]
          \<and> cvs2 = batch_entries enc tmpdir s pre @ [success_entry tmpdir a fa]
                    @ batch_entries enc tmpdir s mid @ [success_entry tmpdir b fb]
          \<and> cv_output_path (success_entry tmpdir a fa) = cv_output_path (success_entry tmpdir b fb)))"
proof (intro conjI impI)
  show "output_path_of tmpdir a = path_join tmpdir (''compressed_'' @ vd_name a)"
    by (simp add: output_path_of_def)
  show "output_path_of tmpdir a = output_path_of tmpdir b" if "vd_name a = vd_name b"
    using that by (rule output_path_same_name)
  assume h: "vd_name a = vd_name b \<and> encode_outcome enc tmpdir s a = Some fa
        \<and> encode_outcome enc tmpdir s b = Some fb"
  then have n: "vd_name a = vd_name b"
    and oa: "encode_outcome enc tmpdir s a = Some fa"
    and ob: "encode_outcome enc tmpdir s b = Some fb"
    by simp_all
  have p: "output_path_of tmpdir b = output_path_of tmpdir a"
    using output_path_same_name [OF n, of tmpdir] by simp
  from oa obtain ca where ca: "item_command tmpdir s a = Inr ca"
    by (auto simp: encode_outcome_def split: sum.splits)
  from ob obtain cb where cb: "item_command tmpdir s b = Inr cb"
    by (auto simp: encode_outcome_def split: sum.splits)
  from ca have fa: "cmd_output ca = output_path_of tmpdir a"
    using encode_command_fields [of "vd_path a" "output_path_of tmpdir a" "s_resolution s"
        "s_remove_audio s" "s_fps s" "s_bitrate s" "''ffmpeg''" ca]
    by (simp add: item_command_def)
  from cb have fb: "cmd_output cb = output_path_of tmpdir a" "cmd_overwrite cb"
    using encode_command_fields [of "vd_path b" "output_path_of tmpdir b" "s_resolution s"
        "s_remove_audio s" "s_fps s" "s_bitrate s" "''ffmpeg''" cb]
    by (simp_all add: item_command_def p)
  let ?w1 = "after_batch enc tmpdir s (pre @ [a]) w"
  let ?c1 = "batch_entries enc tmpdir s (pre @ [a])"
  let ?w2 = "after_batch enc tmpdir s (mid @ [b]) ?w1"
  let ?c2 = "?c1 @ batch_entries enc tmpdir s (mid @ [b])"
  have l1: "compress_loop enc tmpdir s (pre @ [a]) [] w = (Inr ?c1, ?w1)"
    by (simp add: compress_loop_total)
  have l2: "compress_loop enc tmpdir s (mid @ [b]) ?c1 ?w1 = (Inr ?c2, ?w2)"
    by (simp add: compress_loop_total)
  have "compress_loop enc tmpdir s (pre @ a # mid @ [b]) [] w =
      compress_loop enc tmpdir s (mid @ [b]) ?c1 ?w1"
    using compress_loop_append [of enc tmpdir s "pre @ [a]" "mid @ [b]" "[]" w] by simp
  with l2 have l3: "compress_loop enc tmpdir s (pre @ a # mid @ [b]) [] w = (Inr ?c2, ?w2)"
    by (simp only:)
  have f1: "files ?w1 (output_path_of tmpdir a) = Some fa"
    by (simp add: after_batch_def batch_files_last [OF outcome_written [OF oa]])
  have "files ?w2 (output_path_of tmpdir b) = Some fb"
    by (simp add: after_batch_def batch_files_last [OF outcome_written [OF ob]])
  then have f2: "files ?w2 (output_path_of tmpdir a) = Some fb"
    by (simp only: p)
  have bc: "batch_commands tmpdir s [a] = [ca]" "batch_commands tmpdir s [b] = [cb]"
    by (simp_all add: batch_commands_def List.map_filter_simps ca cb)
  have e: "encodes ?w2 = encodes w @ batch_commands tmpdir s pre @ [ca]
                           @ batch_commands tmpdir s mid @ [cb]"
    by (simp add: after_batch_def batch_commands_append bc)
  have be: "batch_entries enc tmpdir s [a] = [success_entry tmpdir a fa]"
    "batch_entries enc tmpdir s [b] = [success_entry tmpdir b fb]"
    by (simp_all add: batch_entries_Cons batch_entries_Nil oa ob)
  have c: "?c2 = batch_entries enc tmpdir s pre @ [success_entry tmpdir a fa]
                    @ batch_entries enc tmpdir s mid @ [success_entry tmpdir b fb]"
    by (simp add: batch_entries_append be)
  have s: "cv_output_path (success_entry tmpdir a fa) = cv_output_path (success_entry tmpdir b fb)"
    by (simp add: success_entry_def p)
  from l1 f1 l2 l3 f2 ca cb fa fb e c s
  show "\<exists>cvs1 w1 cvs2 w2 ca cb.
          compress_loop enc tmpdir s (pre @ [a]) [] w = (Inr cvs1, w1)
          \<and> files w1 (output_path_of tmpdir a) = Some fa
          \<and> compress_loop enc tmpdir s (mid @ [b]) cvs1 w1 = (Inr cvs2, w2)
          \<and> compress_loop enc tmpdir s (pre @ a # mid @ [b]) [] w = (Inr cvs2, w2)
          \<and> files w2 (output_path_of tmpdir a) = Some fb
          \<and> item_command tmpdir s a = Inr ca \<and> item_command tmpdir s b = Inr cb
          \<and> cmd_output ca = output_path_of tmpdir a \<and> cmd_output cb = output_path_of tmpdir a
          \<and> cmd_overwrite cb
          \<and> encodes w2 = encodes w @ batch_commands tmpdir s pre @ [ca]
                           @ batch_commands tmpdir s mid @ [cb]
          \<and> cvs2 = batch_entries enc tmpdir s pre @ [success_entry tmpdir a fa]
                    @ batch_entries enc tmpdir s mid @ [success_entry tmpdir b fb]
          \<and> cv_output_path (success_entry tmpdir a fa) = cv_output_path (success_entry tmpdir b fb)"
    by blast
qed

text \<open>
  Two uploads named \<open>a.mp4\<close> with item B between them: after the first the path holds
  its output, and at the end of the same run it holds the output of the second.
\<close>

theorem same_name_same_output_path_witness:
  "vd_name item_A = vd_name item_A2 \<and> vd_path item_A \<noteq> vd_path item_A2
   \<and> encode_outcome encoder_both_A ''/tmp'' default_settings item_A = Some blob_A
   \<and> encode_outcome encoder_both_A ''/tmp'' default_settings item_A2 = Some blob_A2
   \<and> blob_A \<noteq> blob_A2
   \<and> output_path_of ''/tmp'' item_A2 = ''/tmp/compressed_a.mp4''
   \<and> (\<exists>cvs1 w1 cvs2 w2.
         compress_loop encoder_both_A ''/tmp'' default_settings [item_A] [] empty_world = (Inr cvs1, w1)
         \<and> files w1 ''/tmp/compressed_a.mp4'' = Some blob_A
         \<and> compress_loop encoder_both_A ''/tmp'' default_settings [item_B, item_A2] cvs1 w1
             = (Inr cvs2, w2)
         \<and> compress_loop encoder_both_A ''/tmp'' default_settings [item_A, item_B, item_A2] []
               empty_world = (Inr cvs2, w2)
         \<and> files w2 ''/tmp/compressed_a.mp4'' = Some blob_A2
         \<and> length (encodes w2) = 3 \<and> length cvs2 = 2)"
proof -
  have n: "vd_name item_A = vd_name item_A2" "vd_path item_A \<noteq> vd_path item_A2"
    by (simp_all add: item_A_def item_A2_def)
  have d: "blob_A \<noteq> blob_A2"
    by (simp add: blob_A_def blob_A2_def)
  have bc: "length (batch_commands ''/tmp'' default_settings [item_B]) = 1"
    by (simp add: batch_commands_def List.map_filter_simps item_command_default)
  have be: "batch_entries encoder_both_A ''/tmp'' default_settings [item_B] = []"
    by (simp add: batch_entries_Cons batch_entries_Nil outcome_both_B)
  from same_name_same_output_path
    [where tmpdir = "''/tmp''" and a = item_A and b = item_A2 and enc = encoder_both_A
      and s = default_settings and fa = blob_A and fb = blob_A2 and pre = "[]"
      and mid = "[item_B]" and w = empty_world]
    n outcome_both_A outcome_both_A2
  obtain cvs1 w1 cvs2 w2 ca cb where r:
    "compress_loop encoder_both_A ''/tmp'' default_settings ([] @ [item_A]) [] empty_world
       = (Inr cvs1, w1)"
    "files w1 (output_path_of ''/tmp'' item_A) = Some blob_A"
    "compress_loop encoder_both_A ''/tmp'' default_settings ([item_B] @ [item_A2]) cvs1 w1
       = (Inr cvs2, w2)"
    "compress_loop encoder_both_A ''/tmp'' default_settings ([] @ item_A # [item_B] @ [item_A2]) []
       empty_world = (Inr cvs2, w2)"
    "files w2 (output_path_of ''/tmp'' item_A) = Some blob_A2"
    "encodes w2 = encodes empty_world @ batch_commands ''/tmp'' default_settings [] @ [ca]
                    @ batch_commands ''/tmp'' default_settings [item_B] @ [cb]"
    "cvs2 = batch_entries encoder_both_A ''/tmp'' default_settings []
              @ [success_entry ''/tmp'' item_A blob_A]
              @ batch_entries encoder_both_A ''/tmp'' default_settings [item_B]
              @ [success_entry ''/tmp'' item_A2 blob_A2]"
    by blast
  from r(6) bc have e: "length (encodes w2) = 3"
    by (simp add: empty_world_def batch_commands_def List.map_filter_simps)
  from r(7) be have c: "length cvs2 = 2"
    by (simp add: batch_entries_Nil)
  from r(1-5) e c
  have "\<exists>cvs1 w1 cvs2 w2.
         compress_loop encoder_both_A ''/tmp'' default_settings [item_A] [] empty_world = (Inr cvs1, w1)
         \<and> files w1 ''/tmp/compressed_a.mp4'' = Some blob_A
         \<and> compress_loop encoder_both_A ''/tmp'' default_settings [item_B, item_A2] cvs1 w1
             = (Inr cvs2, w2)
         \<and> compress_loop encoder_both_A ''/tmp'' default_settings [item_A, item_B, item_A2] []
               empty_world = (Inr cvs2, w2)
         \<and> files w2 ''/tmp/compressed_a.mp4'' = Some blob_A2
         \<and> length (encodes w2) = 3 \<and> length cvs2 = 2"
    unfolding path_A by auto
  with n d outcome_both_A outcome_both_A2 path_A2 show ?thesis
    by (intro conjI)
qed

end
